theory Spec2Isabelle
  imports Complex_Main "HOL-Library.Log_Nat"
begin

section \<open>The content store\<close>

text \<open>
  The operations of the platform (\<open>createCourse\<close>, \<open>reorderChapters\<close>,
  \<open>trackProgress\<close>, \<open>calculateCourseProgress\<close>) are a few calls of the ORM client
  on the tables declared in the schema. The tables they read or write are modelled
  here: a row is a record with the columns of its schema model, a table is the list of
  its rows in insertion order, and the store is the record of the tables. The models
  \<open>Category\<close>, \<open>Attachment\<close>, \<open>MuxData\<close> and \<open>StripeCustomer\<close> are touched by none
  of the four operations and are left out.

  Column types: \<open>String\<close> is \<open>string\<close>, an optional column is an \<open>option\<close>,
  \<open>Int\<close> is \<open>int\<close>, \<open>Boolean\<close> is \<open>bool\<close>, \<open>DateTime\<close> is a clock reading
  (\<open>nat\<close>), and \<open>Float\<close> is a rational (no operation computes with the price).
\<close>

type_synonym ident = string
type_synonym datetime = nat

record Course =
  co_id :: ident
  co_userId :: ident
  co_title :: string
  co_description :: "string option"
  co_imageUrl :: "string option"
  co_price :: "rat option"
  co_isPublished :: bool
  co_categoryId :: "ident option"
  co_createdAt :: datetime
  co_updatedAt :: datetime

record Chapter =
  ch_id :: ident
  ch_title :: string
  ch_description :: "string option"
  ch_videoUrl :: "string option"
  ch_position :: int
  ch_isPublished :: bool
  ch_isFree :: bool
  ch_courseId :: ident
  ch_createdAt :: datetime
  ch_updatedAt :: datetime

record UserProgress =
  up_id :: ident
  up_userId :: ident
  up_chapterId :: ident
  up_isCompleted :: bool
  up_createdAt :: datetime
  up_updatedAt :: datetime

record Purchase =
  pu_id :: ident
  pu_userId :: ident
  pu_courseId :: ident
  pu_createdAt :: datetime
  pu_updatedAt :: datetime

record store =
  courses :: "Course list"
  chapters :: "Chapter list"
  userProgress :: "UserProgress list"
  purchases :: "Purchase list"

text \<open>
  What a request takes from outside the store: the clock (\<open>@default(now())\<close>,
  \<open>@updatedAt\<close>), the identifiers that \<open>@default(uuid())\<close> draws (the \<open>n\<close>-th
  identifier drawn by the request is \<open>uuid n\<close>), the relation mode of the datasource
  and the delegates of the client object \<open>prisma\<close>.

  The datasource block is not part of the schema excerpt, so the relation mode is a
  parameter: with \<open>ForeignKeys\<close> the database rejects a row whose relation column
  references no row, with \<open>PrismaEmulated\<close> nothing checks it on creation.

  The client has one delegate per model of the schema it was generated from, named as
  the model with a lower-case initial. \<open>schema_delegates\<close> are those of the schema of
  the source; a property of \<open>prisma\<close> that is not among the delegates is \<open>undefined\<close>,
  and calling a method on it raises a \<open>TypeError\<close> before any query is sent.

  A drawn identifier is taken as it comes: a collision of \<open>uuid()\<close> with a stored
  identifier is not modelled, and where a statement needs a fresh identifier it says so.
\<close>

datatype relation_mode = ForeignKeys | PrismaEmulated

record env =
  relationMode :: relation_mode
  now :: datetime
  uuid :: "nat \<Rightarrow> ident"
  delegates :: "string list"

definition schema_delegates :: "string list" where
  "schema_delegates =
     [''course'', ''category'', ''attachment'', ''chapter'', ''muxData'',
      ''userProgress'', ''purchase'', ''stripeCustomer'']"

text \<open>
  The errors that the modelled calls can raise: the \<open>TypeError\<close> of JavaScript, the
  client's refusal of an argument of the wrong type, and the errors of the query engine
  (a value out of the range of its column, a record to update that does not exist, a
  violated foreign key).
\<close>

datatype error =
  TypeError
  | ValidationError
  | ValueOutOfRange
  | RecordNotFound
  | ForeignKeyViolation

section \<open>Numbers\<close>

text \<open>
  A JavaScript number is an IEEE 754 double. A finite double is modelled by the rational
  it denotes, with the infinities and \<open>NaN\<close> beside; the sign of zero is not modelled.
  An arithmetic operation computes the exact result and rounds it to the nearest double,
  ties to the even significand: \<open>round64\<close>. With \<open>e\<close> the binary exponent of the value
  (at least \<open>-1022\<close>, where the subnormal numbers begin), the doubles around it are the
  integer multiples of \<open>2 powi (e - 52)\<close>, and a result that reaches \<open>overflow\<close>
  becomes an infinity.
\<close>

datatype number = Num rat | PosInfinity | NegInfinity | NaN

definition ilog2 :: "rat \<Rightarrow> int" where
  \<comment> \<open>for \<open>0 < x\<close>, the exponent \<open>e\<close> with \<open>2 powi e \<le> x < 2 powi (e + 1)\<close>\<close>
  "ilog2 x =
     (let d = bitlen (fst (quotient_of x)) - bitlen (snd (quotient_of x))
      in if 2 powi d \<le> x then d else d - 1)"

definition round_half_even :: "rat \<Rightarrow> int" where
  "round_half_even m =
     (let n = \<lfloor>m\<rfloor>; d = m - of_int n
      in if d < 1 / 2 then n else if 1 / 2 < d then n + 1
         else if even n then n else n + 1)"

definition overflow :: rat where
  "overflow = 2 powi 1024"

definition round64 :: "rat \<Rightarrow> number" where
  "round64 x =
     (if x = 0 then Num 0
      else
        (let e = max (ilog2 \<bar>x\<bar>) (- 1022);
             q = 2 powi (e - 52);
             r = of_int (round_half_even (\<bar>x\<bar> / q)) * q
         in if overflow \<le> r
            then (if 0 < x then PosInfinity else NegInfinity)
            else Num (sgn x * r)))"

fun js_div :: "number \<Rightarrow> number \<Rightarrow> number" where
  "js_div NaN _ = NaN"
| "js_div _ NaN = NaN"
| "js_div (Num a) (Num b) =
     (if b = 0 then (if a = 0 then NaN else if 0 < a then PosInfinity else NegInfinity)
      else round64 (a / b))"
| "js_div (Num a) _ = Num 0"
| "js_div PosInfinity (Num b) = (if 0 \<le> b then PosInfinity else NegInfinity)"
| "js_div NegInfinity (Num b) = (if 0 \<le> b then NegInfinity else PosInfinity)"
| "js_div _ _ = NaN"

fun js_mul :: "number \<Rightarrow> number \<Rightarrow> number" where
  "js_mul NaN _ = NaN"
| "js_mul _ NaN = NaN"
| "js_mul (Num a) (Num b) = round64 (a * b)"
| "js_mul (Num a) PosInfinity =
     (if a = 0 then NaN else if 0 < a then PosInfinity else NegInfinity)"
| "js_mul (Num a) NegInfinity =
     (if a = 0 then NaN else if 0 < a then NegInfinity else PosInfinity)"
| "js_mul PosInfinity (Num b) =
     (if b = 0 then NaN else if 0 < b then PosInfinity else NegInfinity)"
| "js_mul NegInfinity (Num b) =
     (if b = 0 then NaN else if 0 < b then NegInfinity else PosInfinity)"
| "js_mul PosInfinity PosInfinity = PosInfinity"
| "js_mul NegInfinity NegInfinity = PosInfinity"
| "js_mul _ _ = NegInfinity"

text \<open>
  The length of an array: an integer below \<open>2 ^ 32\<close>, which a double holds exactly.
\<close>

definition js_length :: "'a list \<Rightarrow> number" where
  "js_length xs = Num (of_nat (length xs))"

section \<open>Progress tracking\<close>

text \<open>
  \<open>prisma.chapter.findMany({ where: { courseId, isPublished: true },
  include: { userProgress: { where: { userId } } } })\<close>: the published chapters of the
  course, each with the progress rows of the user that reference it.
\<close>

definition chapter_findMany_published ::
  "store \<Rightarrow> ident \<Rightarrow> ident \<Rightarrow> (Chapter \<times> UserProgress list) list" where
  "chapter_findMany_published db courseId userId =
     map (\<lambda>chapter. (chapter,
            filter (\<lambda>progress. up_chapterId progress = ch_id chapter \<and>
                                up_userId progress = userId) (userProgress db)))
       (filter (\<lambda>chapter. ch_courseId chapter = courseId \<and> ch_isPublished chapter)
          (chapters db))"

text \<open>
  \<open>calculateCourseProgress\<close>: the chapters found, those of them with some completed
  progress row, and the quotient of the two lengths times 100. Nothing guards the
  division.
\<close>

definition calculateCourseProgress :: "store \<Rightarrow> ident \<Rightarrow> ident \<Rightarrow> number" where
  "calculateCourseProgress db userId courseId =
     (let chapters = chapter_findMany_published db courseId userId;
          completedChapters =
            filter (\<lambda>(chapter, progress). list_ex up_isCompleted progress) chapters
      in js_mul (js_div (js_length completedChapters) (js_length chapters)) (Num 100))"

subsection \<open>The specification's counts\<close>

text \<open>
  The specification counts chapters, not rows of a query: \<open>N\<close> is the number of
  published chapters of the course, and \<open>k\<close> the number of those for which the user has
  a progress record whose flag is true.
\<close>

definition has_completed :: "store \<Rightarrow> ident \<Rightarrow> Chapter \<Rightarrow> bool" where
  "has_completed db u c =
     (\<exists>p \<in> set (userProgress db).
        up_userId p = u \<and> up_chapterId p = ch_id c \<and> up_isCompleted p)"

definition published_count :: "store \<Rightarrow> ident \<Rightarrow> nat" where
  "published_count db course =
     card {c \<in> set (chapters db). ch_courseId c = course \<and> ch_isPublished c}"

definition completed_count :: "store \<Rightarrow> ident \<Rightarrow> ident \<Rightarrow> nat" where
  "completed_count db u course =
     card {c \<in> set (chapters db).
             ch_courseId c = course \<and> ch_isPublished c \<and> has_completed db u c}"

subsection \<open>Keys\<close>

text \<open>The primary key of the chapter table: no two rows share an identifier.\<close>

definition chapter_ids_distinct :: "store \<Rightarrow> bool" where
  "chapter_ids_distinct db = distinct (map ch_id (chapters db))"

definition unique_progress :: "store \<Rightarrow> bool" where
  \<comment> \<open>\<open>@@unique([userId, chapterId])\<close>: at most one progress row per pair.\<close>
  "unique_progress db =
     distinct (map (\<lambda>p. (up_userId p, up_chapterId p)) (userProgress db))"

subsection \<open>Setting the completion flag\<close>

text \<open>
  \<open>trackProgress\<close> calls \<open>prisma.chapterProgress.upsert\<close>. The schema of the source
  declares no model \<open>ChapterProgress\<close>, so the client generated from it has no delegate
  of that name: there the call raises a \<open>TypeError\<close> and nothing is written.

  For a client that does have the delegate, the call is
  \<open>upsert({ where: { userId_chapterId: { userId, chapterId } }, update: { isCompleted },
  create: { userId, chapterId, isCompleted } })\<close> on the progress table; the rows, the
  compound key and the attributes of that table are taken from \<open>UserProgress\<close>, the one
  model of the schema with the key \<open>userId_chapterId\<close>. When a row with the key exists,
  the update sets the flag, and \<open>@updatedAt\<close> sets \<open>updatedAt\<close> to the clock; otherwise
  a row is created with a drawn identifier and both timestamps at the clock. Creation is
  the one step the database can refuse: under \<open>ForeignKeys\<close> the chapter relation must
  reference a chapter.
\<close>

definition has_key :: "ident \<Rightarrow> ident \<Rightarrow> UserProgress \<Rightarrow> bool" where
  "has_key userId chapterId p = (up_userId p = userId \<and> up_chapterId p = chapterId)"

definition userProgress_upsert ::
  "env \<Rightarrow> ident \<Rightarrow> ident \<Rightarrow> bool \<Rightarrow> store \<Rightarrow> store \<times> (error + UserProgress)" where
  "userProgress_upsert e userId chapterId isCompleted db =
     (case find (has_key userId chapterId) (userProgress db) of
        Some p \<Rightarrow>
          (db\<lparr>userProgress :=
                map (\<lambda>x. if has_key userId chapterId x
                          then x\<lparr>up_isCompleted := isCompleted, up_updatedAt := now e\<rparr>
                          else x) (userProgress db)\<rparr>,
           Inr (p\<lparr>up_isCompleted := isCompleted, up_updatedAt := now e\<rparr>))
      | None \<Rightarrow>
          if relationMode e = ForeignKeys \<and>
             \<not> list_ex (\<lambda>c. ch_id c = chapterId) (chapters db)
          then (db, Inl ForeignKeyViolation)
          else
            (let p = \<lparr>up_id = uuid e 0, up_userId = userId, up_chapterId = chapterId,
                      up_isCompleted = isCompleted,
                      up_createdAt = now e, up_updatedAt = now e\<rparr>
             in (db\<lparr>userProgress := userProgress db @ [p]\<rparr>, Inr p)))"

text \<open>The two writes of the upsert, named for the proofs.\<close>

definition touch :: "ident \<Rightarrow> ident \<Rightarrow> bool \<Rightarrow> datetime \<Rightarrow> UserProgress \<Rightarrow> UserProgress" where
  "touch u c f t x =
     (if has_key u c x then x\<lparr>up_isCompleted := f, up_updatedAt := t\<rparr> else x)"

definition fresh_row :: "env \<Rightarrow> ident \<Rightarrow> ident \<Rightarrow> bool \<Rightarrow> UserProgress" where
  "fresh_row e u c f =
     \<lparr>up_id = uuid e 0, up_userId = u, up_chapterId = c, up_isCompleted = f,
      up_createdAt = now e, up_updatedAt = now e\<rparr>"

definition trackProgress ::
  "env \<Rightarrow> store \<Rightarrow> ident \<Rightarrow> ident \<Rightarrow> bool \<Rightarrow> store \<times> (error + UserProgress)" where
  "trackProgress e db userId chapterId isCompleted =
     (if ''chapterProgress'' \<in> set (delegates e)
      then userProgress_upsert e userId chapterId isCompleted db
      else (db, Inl TypeError))"

section \<open>Course management\<close>

subsection \<open>Creating a course\<close>

text \<open>
  The type \<open>CreateCourseData\<close> is not declared in the source; its fields are those that
  \<open>createCourse\<close> reads. The nested \<open>create\<close> writes the course row and one chapter row
  per element of \<open>data.chapters\<close>, with the element's index as position; the columns
  the call does not give take their schema defaults.
\<close>

record ChapterData =
  cd_title :: string
  cd_description :: "string option"

record CreateCourseData =
  ccd_title :: string
  ccd_description :: "string option"
  ccd_imageUrl :: "string option"
  ccd_price :: "rat option"
  ccd_chapters :: "ChapterData list"

definition createCourse :: "env \<Rightarrow> store \<Rightarrow> ident \<Rightarrow> CreateCourseData \<Rightarrow> store \<times> Course" where
  "createCourse e db userId data =
     (let course =
            \<lparr>co_id = uuid e 0, co_userId = userId, co_title = ccd_title data,
             co_description = ccd_description data, co_imageUrl = ccd_imageUrl data,
             co_price = ccd_price data, co_isPublished = False, co_categoryId = None,
             co_createdAt = now e, co_updatedAt = now e\<rparr>;
          created =
            map (\<lambda>(index, chapter).
                   \<lparr>ch_id = uuid e (Suc index), ch_title = cd_title chapter,
                    ch_description = cd_description chapter, ch_videoUrl = None,
                    ch_position = int index, ch_isPublished = False, ch_isFree = False,
                    ch_courseId = co_id course,
                    ch_createdAt = now e, ch_updatedAt = now e\<rparr>)
              (enumerate 0 (ccd_chapters data))
      in (db\<lparr>courses := courses db @ [course], chapters := chapters db @ created\<rparr>,
          course))"

subsection \<open>Reordering chapters\<close>

text \<open>
  An element of \<open>updateData\<close>: \<open>{ id: string; position: number }\<close>. The position is a
  JavaScript number, and the column it is written to is a 32-bit \<open>Int\<close>: the client
  refuses a number that is not an integer, and the query engine a value that the column
  cannot hold.
\<close>

record position_update =
  upd_id :: ident
  upd_position :: number

definition check_position :: "number \<Rightarrow> error + int" where
  "check_position v =
     (case v of
        Num r \<Rightarrow>
          if of_int \<lfloor>r\<rfloor> \<noteq> r then Inl ValidationError
          else if \<lfloor>r\<rfloor> < - (2 ^ 31) \<or> 2 ^ 31 \<le> \<lfloor>r\<rfloor> then Inl ValueOutOfRange
          else Inr \<lfloor>r\<rfloor>
      | _ \<Rightarrow> Inl ValidationError)"

text \<open>
  \<open>prisma.chapter.update({ where: { id }, data: { position } })\<close>: the row with the
  identifier gets the position (and \<open>updatedAt\<close>); with no such row the call raises.
\<close>

definition chapter_update ::
  "env \<Rightarrow> ident \<Rightarrow> number \<Rightarrow> store \<Rightarrow> store \<times> (error + Chapter)" where
  "chapter_update e i pos db =
     (case check_position pos of
        Inl err \<Rightarrow> (db, Inl err)
      | Inr p \<Rightarrow>
          (case find (\<lambda>c. ch_id c = i) (chapters db) of
             None \<Rightarrow> (db, Inl RecordNotFound)
           | Some c \<Rightarrow>
               (db\<lparr>chapters :=
                     map (\<lambda>x. if ch_id x = i
                               then x\<lparr>ch_position := p, ch_updatedAt := now e\<rparr> else x)
                       (chapters db)\<rparr>,
                Inr (c\<lparr>ch_position := p, ch_updatedAt := now e\<rparr>))))"

text \<open>
  \<open>prisma.$transaction([...])\<close> runs the queries of the list one after the other on the
  store; when one raises, the store is rolled back to what it was before the first, and
  the error is raised to the caller.
\<close>

fun run_batch ::
  "(store \<Rightarrow> store \<times> (error + 'a)) list \<Rightarrow> store \<Rightarrow> store \<times> (error + 'a list)" where
  "run_batch [] db = (db, Inr [])"
| "run_batch (q # qs) db =
     (case q db of
        (db', Inl err) \<Rightarrow> (db', Inl err)
      | (db', Inr r) \<Rightarrow>
          (case run_batch qs db' of
             (db'', Inl err) \<Rightarrow> (db'', Inl err)
           | (db'', Inr rs) \<Rightarrow> (db'', Inr (r # rs))))"

definition prisma_transaction ::
  "(store \<Rightarrow> store \<times> (error + 'a)) list \<Rightarrow> store \<Rightarrow> store \<times> (error + 'a list)" where
  "prisma_transaction qs db =
     (case run_batch qs db of
        (db', Inl err) \<Rightarrow> (db, Inl err)
      | (db', Inr rs) \<Rightarrow> (db', Inr rs))"

definition reorderChapters ::
  "env \<Rightarrow> store \<Rightarrow> ident \<Rightarrow> position_update list \<Rightarrow> store \<times> (error + unit)" where
  "reorderChapters e db courseId updateData =
     (let transaction =
            map (\<lambda>chapter. chapter_update e (upd_id chapter) (upd_position chapter))
              updateData
      in case prisma_transaction transaction db of
           (db', Inl err) \<Rightarrow> (db', Inl err)
         | (db', Inr _) \<Rightarrow> (db', Inr ()))"

text \<open>
  The batches that can succeed: every position is an integer that fits the column, and
  every identifier references a chapter. \<open>position_value\<close> is the integer that such a
  position denotes.
\<close>

definition position_ok :: "number \<Rightarrow> bool" where
  "position_ok v = (case check_position v of Inl _ \<Rightarrow> False | Inr _ \<Rightarrow> True)"

definition position_value :: "number \<Rightarrow> int" where
  "position_value v = (case v of Num r \<Rightarrow> \<lfloor>r\<rfloor> | _ \<Rightarrow> 0)"

definition ids_exist :: "store \<Rightarrow> position_update list \<Rightarrow> bool" where
  "ids_exist db us = list_all (\<lambda>u. list_ex (\<lambda>c. ch_id c = upd_id u) (chapters db)) us"

definition batch_ok :: "store \<Rightarrow> position_update list \<Rightarrow> bool" where
  "batch_ok db us = (list_all (\<lambda>u. position_ok (upd_position u)) us \<and> ids_exist db us)"

text \<open>
  What the specification calls applying every update of a batch: each update in turn
  sets the position of the chapter it lists.
\<close>

definition set_position :: "env \<Rightarrow> position_update \<Rightarrow> Chapter list \<Rightarrow> Chapter list" where
  "set_position e u cs =
     map (\<lambda>x. if ch_id x = upd_id u
               then x\<lparr>ch_position := position_value (upd_position u), ch_updatedAt := now e\<rparr>
               else x) cs"

definition all_applied :: "env \<Rightarrow> position_update list \<Rightarrow> Chapter list \<Rightarrow> Chapter list" where
  "all_applied e us cs = foldl (\<lambda>cs u. set_position e u cs) cs us"

text \<open>
  The position a batch leaves on the chapter with identifier \<open>i\<close>: that of the last
  update of the batch that lists \<open>i\<close>, if any.
\<close>

fun final_position :: "position_update list \<Rightarrow> ident \<Rightarrow> int option" where
  "final_position [] i = None"
| "final_position (u # us) i =
     (case final_position us i of
        Some p \<Rightarrow> Some p
      | None \<Rightarrow> if upd_id u = i then Some (position_value (upd_position u)) else None)"

definition reordered :: "env \<Rightarrow> position_update list \<Rightarrow> Chapter \<Rightarrow> Chapter" where
  "reordered e us c =
     (case final_position us (ch_id c) of
        None \<Rightarrow> c
      | Some p \<Rightarrow> c\<lparr>ch_position := p, ch_updatedAt := now e\<rparr>)"

text \<open>Shorthands: the queries of a reorder batch, and the key of a progress row.\<close>

abbreviation (input) updates_of ::
  "env \<Rightarrow> position_update list \<Rightarrow> (store \<Rightarrow> store \<times> (error + Chapter)) list" where
  "updates_of e us \<equiv>
     map (\<lambda>chapter. chapter_update e (upd_id chapter) (upd_position chapter)) us"

abbreviation (input) key_of :: "UserProgress \<Rightarrow> ident \<times> ident" where
  "key_of p \<equiv> (up_userId p, up_chapterId p)"

section \<open>Requests\<close>

text \<open>
  The operations as requests on the store, and the store a request leaves behind.
  \<open>calculateCourseProgress\<close> only reads: the store after it is the store before it.
\<close>

datatype request =
  TrackProgress ident ident bool
  | CalculateCourseProgress ident ident
  | ReorderChapters ident "position_update list"
  | CreateCourse ident CreateCourseData

fun store_after :: "env \<Rightarrow> request \<Rightarrow> store \<Rightarrow> store" where
  "store_after e (TrackProgress userId chapterId isCompleted) db =
     fst (trackProgress e db userId chapterId isCompleted)"
| "store_after e (CalculateCourseProgress userId courseId) db = db"
| "store_after e (ReorderChapters courseId updateData) db =
     fst (reorderChapters e db courseId updateData)"
| "store_after e (CreateCourse userId data) db = fst (createCourse e db userId data)"

section \<open>Example stores\<close>

definition env0 :: env where
  \<comment> \<open>the client generated from the schema of the source\<close>
  "env0 = \<lparr>relationMode = ForeignKeys, now = 7,
           uuid = (\<lambda>n. ''id-'' @ replicate n CHR ''x''),
           delegates = schema_delegates\<rparr>"

definition env_declared :: env where
  \<comment> \<open>a client whose progress delegate has the name that \<open>trackProgress\<close> uses\<close>
  "env_declared = env0\<lparr>delegates := ''chapterProgress'' # schema_delegates\<rparr>"

definition mk_chapter :: "ident \<Rightarrow> ident \<Rightarrow> int \<Rightarrow> bool \<Rightarrow> Chapter" where
  "mk_chapter i course pos published =
     \<lparr>ch_id = i, ch_title = i, ch_description = None, ch_videoUrl = None,
      ch_position = pos, ch_isPublished = published, ch_isFree = False,
      ch_courseId = course, ch_createdAt = 1, ch_updatedAt = 1\<rparr>"

definition mk_progress :: "ident \<Rightarrow> ident \<Rightarrow> ident \<Rightarrow> bool \<Rightarrow> UserProgress" where
  "mk_progress i u c flag =
     \<lparr>up_id = i, up_userId = u, up_chapterId = c, up_isCompleted = flag,
      up_createdAt = 2, up_updatedAt = 2\<rparr>"

definition mk_course :: "ident \<Rightarrow> Course" where
  "mk_course i =
     \<lparr>co_id = i, co_userId = ''teacher'', co_title = i, co_description = None,
      co_imageUrl = None, co_price = None, co_isPublished = True, co_categoryId = None,
      co_createdAt = 1, co_updatedAt = 1\<rparr>"

definition scenario_store :: store where
  \<comment> \<open>two published chapters and an unpublished one; the user has completed the first\<close>
  "scenario_store =
     \<lparr>courses = [mk_course ''course''],
      chapters = [mk_chapter ''chapter1'' ''course'' 0 True,
                  mk_chapter ''chapter2'' ''course'' 1 True,
                  mk_chapter ''chapter3'' ''course'' 2 False],
      userProgress = [mk_progress ''p1'' ''U'' ''chapter1'' True,
                      mk_progress ''p2'' ''U'' ''chapter2'' False],
      purchases = []\<rparr>"

definition twenty_store :: store where
  \<comment> \<open>twenty published chapters, of which the user has completed the first eleven\<close>
  "twenty_store =
     \<lparr>courses = [mk_course ''course''],
      chapters = [mk_chapter ''c01'' ''course'' 0 True,
                  mk_chapter ''c02'' ''course'' 1 True,
                  mk_chapter ''c03'' ''course'' 2 True,
                  mk_chapter ''c04'' ''course'' 3 True,
                  mk_chapter ''c05'' ''course'' 4 True,
                  mk_chapter ''c06'' ''course'' 5 True,
                  mk_chapter ''c07'' ''course'' 6 True,
                  mk_chapter ''c08'' ''course'' 7 True,
                  mk_chapter ''c09'' ''course'' 8 True,
                  mk_chapter ''c10'' ''course'' 9 True,
                  mk_chapter ''c11'' ''course'' 10 True,
                  mk_chapter ''c12'' ''course'' 11 True,
                  mk_chapter ''c13'' ''course'' 12 True,
                  mk_chapter ''c14'' ''course'' 13 True,
                  mk_chapter ''c15'' ''course'' 14 True,
                  mk_chapter ''c16'' ''course'' 15 True,
                  mk_chapter ''c17'' ''course'' 16 True,
                  mk_chapter ''c18'' ''course'' 17 True,
                  mk_chapter ''c19'' ''course'' 18 True,
                  mk_chapter ''c20'' ''course'' 19 True],
      userProgress = [mk_progress ''p01'' ''U'' ''c01'' True,
                      mk_progress ''p02'' ''U'' ''c02'' True,
                      mk_progress ''p03'' ''U'' ''c03'' True,
                      mk_progress ''p04'' ''U'' ''c04'' True,
                      mk_progress ''p05'' ''U'' ''c05'' True,
                      mk_progress ''p06'' ''U'' ''c06'' True,
                      mk_progress ''p07'' ''U'' ''c07'' True,
                      mk_progress ''p08'' ''U'' ''c08'' True,
                      mk_progress ''p09'' ''U'' ''c09'' True,
                      mk_progress ''p10'' ''U'' ''c10'' True,
                      mk_progress ''p11'' ''U'' ''c11'' True],
      purchases = []\<rparr>"

definition abc_store :: store where
  \<comment> \<open>chapters A, B, C of one course at positions 0, 1, 2\<close>
  "abc_store =
     \<lparr>courses = [mk_course ''course''],
      chapters = [mk_chapter ''A'' ''course'' 0 True,
                  mk_chapter ''B'' ''course'' 1 True,
                  mk_chapter ''C'' ''course'' 2 True],
      userProgress = [], purchases = []\<rparr>"

definition empty_store :: store where
  "empty_store = \<lparr>courses = [], chapters = [], userProgress = [], purchases = []\<rparr>"

definition swap_AC :: "position_update list" where
  "swap_AC =
     [\<lparr>upd_id = ''A'', upd_position = Num 2\<rparr>, \<lparr>upd_id = ''C'', upd_position = Num 0\<rparr>]"

definition broken_batch :: "position_update list" where
  \<comment> \<open>the second update lists an identifier that references no chapter\<close>
  "broken_batch =
     [\<lparr>upd_id = ''A'', upd_position = Num 2\<rparr>, \<lparr>upd_id = ''Z'', upd_position = Num 9\<rparr>,
      \<lparr>upd_id = ''C'', upd_position = Num 0\<rparr>]"

definition wide_batch :: "position_update list" where
  \<comment> \<open>every identifier references a chapter; the second position does not fit 32 bits\<close>
  "wide_batch =
     [\<lparr>upd_id = ''B'', upd_position = Num 5\<rparr>,
      \<lparr>upd_id = ''A'', upd_position = Num 2147483648\<rparr>]"

definition algebra_course :: CreateCourseData where
  "algebra_course =
     \<lparr>ccd_title = ''Algebra'', ccd_description = None, ccd_imageUrl = None,
      ccd_price = None,
      ccd_chapters = [\<lparr>cd_title = ''Groups'', cd_description = None\<rparr>,
                      \<lparr>cd_title = ''Rings'', cd_description = None\<rparr>]\<rparr>"



definition geometry_store :: store where
  \<comment> \<open>a store that already holds another course with a chapter\<close>
  "geometry_store =
     \<lparr>courses = [mk_course ''geometry''],
      chapters = [mk_chapter ''Triangles'' ''geometry'' 0 True],
      userProgress = [], purchases = []\<rparr>"

section \<open>Rounding to a double\<close>

lemma two_powi_mono: "a \<le> b \<Longrightarrow> (2::rat) powi a \<le> 2 powi b"
  by (rule power_int_increasing) simp_all

lemma two_powi_Suc: "(2::rat) powi (a + 1) = 2 * 2 powi a"
  by (simp add: power_int_add)

lemma bitlen_powi:
  assumes "0 < (p::int)"
  shows "(2::rat) powi (bitlen p - 1) \<le> of_int p" and "of_int p < (2::rat) powi bitlen p"
proof -
  from assms have b: "1 \<le> bitlen p" by (auto simp add: bitlen_alt_def)
  from bitlen_bounds [OF assms]
  have lo: "(2::int) ^ nat (bitlen p - 1) \<le> p" and hi: "p < 2 ^ nat (bitlen p)" by simp_all
  from lo have "(of_int ((2::int) ^ nat (bitlen p - 1)) :: rat) \<le> of_int p"
    by (simp only: of_int_le_iff)
  with b show "(2::rat) powi (bitlen p - 1) \<le> of_int p"
    by (simp add: power_int_nonneg_exp)
  from hi have "(of_int p :: rat) < of_int ((2::int) ^ nat (bitlen p))"
    by (simp only: of_int_less_iff)
  with b show "of_int p < (2::rat) powi bitlen p"
    by (simp add: power_int_nonneg_exp)
qed

lemma ilog2_bounds:
  assumes "0 < x"
  shows "2 powi ilog2 x \<le> x" and "x < 2 powi (ilog2 x + 1)"
proof -
  obtain p q where pq: "quotient_of x = (p, q)" by (cases "quotient_of x")
  then have q: "0 < q" by (rule quotient_of_denom_pos)
  from pq have x: "x = of_int p / of_int q" by (rule quotient_of_div)
  with assms q have p: "0 < p" by (simp add: zero_less_divide_iff)
  let ?d = "bitlen p - bitlen q"
  note p1 = bitlen_powi(1) [OF p] and p2 = bitlen_powi(2) [OF p]
  note q1 = bitlen_powi(1) [OF q] and q2 = bitlen_powi(2) [OF q]
  from q have q': "(0::rat) < of_int q" by simp
  have "x * of_int q = of_int p" using q' by (simp add: x)
  have "x * 2 powi (bitlen q - 1) \<le> x * of_int q"
    using q1 assms by (simp add: mult_left_mono)
  also have "\<dots> = of_int p" by fact
  also have "\<dots> < 2 powi bitlen p" by (rule p2)
  finally have "x * 2 powi (bitlen q - 1) < 2 powi (?d + 1) * 2 powi (bitlen q - 1)"
    by (simp add: power_int_add [symmetric])
  then have up: "x < 2 powi (?d + 1)"
    by (simp add: mult_less_cancel_right)
  have "2 powi (?d - 1) * 2 powi bitlen q = (2::rat) powi (bitlen p - 1)"
    by (simp add: power_int_add [symmetric])
  also have "\<dots> \<le> of_int p" by (rule p1)
  also have "\<dots> = x * of_int q" by (simp add: \<open>x * of_int q = of_int p\<close>)
  also have "\<dots> \<le> x * 2 powi bitlen q"
    using q2 assms by (simp add: mult_left_mono)
  finally have lo: "2 powi (?d - 1) \<le> x"
    by (simp add: mult_le_cancel_right)
  show "2 powi ilog2 x \<le> x"
    using lo by (auto simp add: ilog2_def pq Let_def)
  show "x < 2 powi (ilog2 x + 1)"
    using up by (auto simp add: ilog2_def pq Let_def not_le)
qed

lemma round_half_even_near: "\<bar>of_int (round_half_even m) - m\<bar> \<le> 1 / 2"
proof -
  have a: "of_int \<lfloor>m\<rfloor> \<le> m" and b: "m < of_int \<lfloor>m\<rfloor> + 1" by linarith+
  show ?thesis
    unfolding round_half_even_def Let_def using a b by (auto simp add: abs_le_iff)
qed

lemma round_half_even_le: "m \<le> of_int K \<Longrightarrow> round_half_even m \<le> K"
proof -
  assume mK: "m \<le> of_int K"
  then have fl: "\<lfloor>m\<rfloor> \<le> K" by (simp add: floor_le_iff) 
  show ?thesis
  proof (cases "\<lfloor>m\<rfloor> = K")
    case True
    with mK have "m - of_int \<lfloor>m\<rfloor> \<le> 0" by simp
    then show ?thesis unfolding round_half_even_def Let_def using True by simp
  next
    case False
    with fl have "\<lfloor>m\<rfloor> + 1 \<le> K" by simp
    then show ?thesis unfolding round_half_even_def Let_def by simp
  qed
qed

lemma round_half_even_ge: "of_int K \<le> m \<Longrightarrow> K \<le> round_half_even m"
proof -
  assume "of_int K \<le> m"
  then have "K \<le> \<lfloor>m\<rfloor>" by (simp add: le_floor_iff)
  then show ?thesis unfolding round_half_even_def Let_def by simp
qed

lemma ilog2_ge: "0 < x \<Longrightarrow> 2 powi a \<le> x \<Longrightarrow> a \<le> ilog2 x"
proof (rule ccontr)
  assume x: "0 < x" and a: "2 powi a \<le> x" and "\<not> a \<le> ilog2 x"
  then have "ilog2 x + 1 \<le> a" by simp
  then have "(2::rat) powi (ilog2 x + 1) \<le> 2 powi a" by (rule two_powi_mono)
  with ilog2_bounds(2) [OF x] a show False by simp
qed

lemma ilog2_less: "0 < x \<Longrightarrow> x < 2 powi a \<Longrightarrow> ilog2 x < a"
proof (rule ccontr)
  assume x: "0 < x" and a: "x < 2 powi a" and "\<not> ilog2 x < a"
  then have "a \<le> ilog2 x" by simp
  then have "(2::rat) powi a \<le> 2 powi ilog2 x" by (rule two_powi_mono)
  with ilog2_bounds(1) [OF x] a show False by simp
qed

lemma two_powi_add: "(2::rat) powi a * 2 powi b = 2 powi (a + b)"
  by (simp add: power_int_add)

lemma below_overflow: "a \<le> 1024 \<Longrightarrow> x < 2 powi a \<Longrightarrow> \<not> overflow \<le> x"
proof -
  assume "a \<le> 1024" and x: "x < 2 powi a"
  then have "(2::rat) powi a \<le> 2 powi 1024" by (intro two_powi_mono)
  with x show ?thesis unfolding overflow_def by linarith
qed

lemma round64_pos:
  assumes "0 < x"
  shows "round64 x =
    (if overflow \<le> of_int (round_half_even (x / 2 powi (max (ilog2 x) (- 1022) - 52)))
                         * 2 powi (max (ilog2 x) (- 1022) - 52)
     then PosInfinity
     else Num (of_int (round_half_even (x / 2 powi (max (ilog2 x) (- 1022) - 52)))
                * 2 powi (max (ilog2 x) (- 1022) - 52)))"
  using assms by (simp add: round64_def Let_def)

lemma round64_le_int:
  assumes "0 \<le> x" and "x \<le> of_int K" and "K < 2 ^ 53"
  shows "\<exists>r. round64 x = Num r \<and> 0 \<le> r \<and> r \<le> of_int K"
proof (cases "x = 0")
  case True
  with assms(2) show ?thesis by (simp add: round64_def)
next
  case False
  with assms(1) have x: "0 < x" by simp
  define e where "e = max (ilog2 x) (- 1022)"
  define q :: rat where "q = 2 powi (e - 52)"
  define n where "n = round_half_even (x / q)"
  define s :: int where "s = 2 ^ nat (52 - e)"
  from assms(3) have "(of_int K :: rat) < of_int (2 ^ 53)" by (simp only: of_int_less_iff)
  then have K: "(of_int K :: rat) < 2 powi 53" by simp
  with assms(2) have "x < 2 powi 53" by simp
  with x have "ilog2 x < 53" by (rule ilog2_less)
  then have e: "e \<le> 52" by (simp add: e_def)
  have q: "0 < q" by (simp add: q_def)
  have "q * 2 powi (52 - e) = 1"
    unfolding q_def by (simp add: power_int_add [symmetric])
  moreover from e have "(2::rat) powi (52 - e) = of_int s"
    by (simp add: s_def power_int_nonneg_exp)
  ultimately have qs: "q * of_int s = 1" by simp
  then have inv: "x / q = x * of_int s" for x :: rat
    using q by (simp add: field_simps)
  have "x / q \<le> of_int K / q" using assms(2) q by (simp add: divide_right_mono)
  also have "\<dots> = of_int (K * s)" by (simp add: inv)
  finally have "n \<le> K * s" unfolding n_def by (rule round_half_even_le)
  then have "of_int n * q \<le> of_int (K * s) * q"
    using q by (simp add: mult_right_mono del: of_int_mult)
  also have "\<dots> = of_int K" using qs by (simp add: mult.assoc mult.commute [of _ q])
  finally have upper: "of_int n * q \<le> of_int K" .
  have "of_int 0 \<le> x / q" using x q by simp
  then have "0 \<le> n" unfolding n_def by (rule round_half_even_ge)
  with q have lower: "0 \<le> of_int n * q" by simp
  from upper K have "of_int n * q < 2 powi 53" by simp
  then have "\<not> overflow \<le> of_int n * q" by (intro below_overflow [of 53]) simp_all
  with lower upper show ?thesis
    unfolding round64_pos [OF x] n_def q_def e_def by simp
qed

lemma round64_near:
  assumes "0 < x" and "- 1022 \<le> ilog2 x" and "ilog2 x < 1023"
  shows "\<exists>r. round64 x = Num r \<and> \<bar>r - x\<bar> \<le> x / 2 ^ 53"
proof -
  define e where "e = ilog2 x"
  define q :: rat where "q = 2 powi (e - 52)"
  define n where "n = round_half_even (x / q)"
  from assms(2) have m: "max (ilog2 x) (- 1022) = e" by (simp add: e_def)
  have q: "0 < q" by (simp add: q_def)
  have "\<bar>of_int n - x / q\<bar> \<le> 1 / 2" unfolding n_def by (rule round_half_even_near)
  then have "\<bar>of_int n - x / q\<bar> * q \<le> 1 / 2 * q" using q by (simp add: mult_right_mono)
  moreover have "\<bar>of_int n - x / q\<bar> * q = \<bar>of_int n * q - x\<bar>"
  proof -
    have "of_int n * q - x = (of_int n - x / q) * q" using q by (simp add: left_diff_distrib)
    then have "\<bar>of_int n * q - x\<bar> = \<bar>of_int n - x / q\<bar> * \<bar>q\<bar>" by (simp only: abs_mult)
    with q show ?thesis by simp
  qed
  ultimately have near: "\<bar>of_int n * q - x\<bar> \<le> q / 2" by simp
  have "q * 2 ^ 53 = 2 * 2 powi e"
  proof -
    have "(2::rat) ^ 53 = 2 powi 53" by simp
    then have "q * 2 ^ 53 = 2 powi (e - 52) * 2 powi 53" by (simp only: q_def)
    also have "\<dots> = 2 powi (e - 52 + 53)" by (rule two_powi_add)
    also have "e - 52 + 53 = e + 1" by simp
    finally show ?thesis by (simp only: two_powi_Suc)
  qed
  then have "q / 2 = 2 powi e / 2 ^ 53" by (simp add: field_simps)
  also have "\<dots> \<le> x / 2 ^ 53"
    using ilog2_bounds(1) [OF assms(1)] by (simp add: e_def divide_right_mono)
  finally have err: "\<bar>of_int n * q - x\<bar> \<le> x / 2 ^ 53" using near by simp
  have "x / 2 ^ 53 \<le> x" using assms(1) by (simp add: field_simps)
  with err have "\<bar>of_int n * q - x\<bar> \<le> x" by (rule order_trans)
  then have "of_int n * q \<le> 2 * x" by linarith
  also have "\<dots> < 2 * 2 powi (e + 1)"
    using ilog2_bounds(2) [OF assms(1)] by (simp add: e_def)
  also have "\<dots> = 2 powi (e + 1 + 1)" by (simp only: two_powi_Suc)
  finally have "of_int n * q < 2 powi (e + 1 + 1)" .
  moreover from assms(3) have "e + 1 + 1 \<le> 1024" by (simp add: e_def)
  ultimately have "\<not> overflow \<le> of_int n * q" by (intro below_overflow)
  with err show ?thesis
    unfolding round64_pos [OF assms(1)] m n_def q_def by simp
qed

lemma percent_rounded:
  fixes k N :: nat
  assumes "1 \<le> N" and "k \<le> N"
  shows "\<exists>q r. round64 (of_nat k / of_nat N) = Num q \<and> round64 (q * 100) = Num r
           \<and> 0 \<le> r \<and> r \<le> 100
           \<and> (N < 2 ^ 32 \<longrightarrow>
                \<bar>r - 100 * of_nat k / of_nat N\<bar> \<le> 100 * of_nat k / of_nat N / 2 ^ 51)"
proof -
  define x :: rat where "x = of_nat k / of_nat N"
  from assms have x0: "0 \<le> x" and x1: "x \<le> 1" by (simp_all add: x_def)
  from x0 x1 obtain q where q: "round64 x = Num q" "0 \<le> q" "q \<le> 1"
    using round64_le_int [of x 1] by auto
  from q have "0 \<le> q * 100" and "q * 100 \<le> of_int 100" by simp_all
  then obtain r where r: "round64 (q * 100) = Num r" "0 \<le> r" "r \<le> 100"
    using round64_le_int [of "q * 100" 100] by auto
  have "\<bar>r - 100 * x\<bar> \<le> 100 * x / 2 ^ 51" if small: "N < 2 ^ 32"
  proof (cases "k = 0")
    case True
    then have "x = 0" by (simp add: x_def)
    with q(1) have "q = 0" by (simp add: round64_def)
    with r(1) have "r = 0" by (simp add: round64_def)
    with \<open>x = 0\<close> show ?thesis by simp
  next
    case False
    with assms have xpos: "0 < x" by (simp add: x_def)
    from small have "(of_nat N :: rat) < of_nat (2 ^ 32)" by (simp only: of_nat_less_iff)
    then have "(of_nat N :: rat) \<le> 2 ^ 32" by simp
    moreover from False have "(1::rat) \<le> of_nat k" by simp
    ultimately have "1 / 2 ^ 32 \<le> x"
      using assms(1) unfolding x_def by (simp add: frac_le)
    moreover have "(2::rat) powi (- 1022) \<le> 2 powi (- 32)" by (rule two_powi_mono) simp
    ultimately have low: "2 powi (- 1022) \<le> x" by (simp add: power_int_minus_divide)
    with xpos have e1: "- 1022 \<le> ilog2 x" by (rule ilog2_ge)
    from x1 have "x < 2 powi 1" by simp
    with xpos have "ilog2 x < 1" by (rule ilog2_less)
    then have e2: "ilog2 x < 1023" by simp
    have p53: "(2::rat) ^ 53 = 9007199254740992" and p51: "(2::rat) ^ 51 = 2251799813685248"
      by simp_all
    from round64_near [OF xpos e1 e2] q(1) have "\<bar>q - x\<bar> \<le> x / 2 ^ 53" by auto
    then have qx: "\<bar>q - x\<bar> \<le> x / 9007199254740992" by (simp only: p53)
    with xpos have ypos: "0 < q * 100" and "x \<le> q * 100" by linarith+
    with low have "2 powi (- 1022) \<le> q * 100" by simp
    with ypos have f1: "- 1022 \<le> ilog2 (q * 100)" by (rule ilog2_ge)
    from q(3) have "q * 100 < 2 powi 7" by simp
    with ypos have "ilog2 (q * 100) < 7" by (rule ilog2_less)
    then have f2: "ilog2 (q * 100) < 1023" by simp
    from round64_near [OF ypos f1 f2] r(1) have "\<bar>r - q * 100\<bar> \<le> q * 100 / 2 ^ 53" by auto
    then have ry: "\<bar>r - q * 100\<bar> \<le> q * 100 / 9007199254740992" by (simp only: p53)
    from qx ry xpos have "\<bar>r - 100 * x\<bar> \<le> 100 * x / 2251799813685248" by linarith
    then show ?thesis by (simp only: p51)
  qed
  with q r show ?thesis unfolding x_def by auto
qed

section \<open>Course progress\<close>

lemma length_filter_card:
  "distinct xs \<Longrightarrow> length (filter P xs) = card {x \<in> set xs. P x}"
proof -
  assume d: "distinct xs"
  have "distinct (filter P xs)" using d by simp
  then have "card (set (filter P xs)) = length (filter P xs)"
    by (rule distinct_card)
  moreover have "set (filter P xs) = {x \<in> set xs. P x}" by auto
  ultimately show ?thesis by metis
qed

lemma chapters_distinct: "chapter_ids_distinct db \<Longrightarrow> distinct (chapters db)"
  unfolding chapter_ids_distinct_def by (simp add: distinct_map)

lemma list_ex_progress:
  "list_ex up_isCompleted
     (filter (\<lambda>p. up_chapterId p = ch_id c \<and> up_userId p = u) (userProgress db))
   = has_completed db u c"
  unfolding has_completed_def list_ex_iff by auto

lemma found_length:
  "chapter_ids_distinct db \<Longrightarrow>
   length (chapter_findMany_published db c u) = published_count db c"
  unfolding chapter_findMany_published_def published_count_def
  by (simp add: length_filter_card [OF chapters_distinct])

lemma completed_length:
  "chapter_ids_distinct db \<Longrightarrow>
   length (filter (\<lambda>(chapter, progress). list_ex up_isCompleted progress)
             (chapter_findMany_published db c u)) = completed_count db u c"
proof -
  assume d: "chapter_ids_distinct db"
  let ?pub = "\<lambda>x. ch_courseId x = c \<and> ch_isPublished x"
  have "length (filter (\<lambda>(chapter, progress). list_ex up_isCompleted progress)
             (chapter_findMany_published db c u))
      = length (filter (\<lambda>x. has_completed db u x) (filter ?pub (chapters db)))"
    unfolding chapter_findMany_published_def
    by (simp add: filter_map o_def list_ex_progress)
  also have "\<dots> = length (filter (\<lambda>x. ?pub x \<and> has_completed db u x) (chapters db))"
    by (simp add: conj_commute)
  also have "\<dots> = completed_count db u c"
    unfolding completed_count_def
    by (simp add: length_filter_card [OF chapters_distinct [OF d]] conj_assoc)
  finally show ?thesis .
qed

lemma progress_quotient:
  "chapter_ids_distinct db \<Longrightarrow>
   calculateCourseProgress db u c
     = js_mul (js_div (Num (of_nat (completed_count db u c)))
                      (Num (of_nat (published_count db c)))) (Num 100)"
  unfolding calculateCourseProgress_def Let_def js_length_def
  by (simp only: found_length completed_length)

lemma completed_le_published: "completed_count db u c \<le> published_count db c"
proof -
  have "{x \<in> set (chapters db). ch_courseId x = c \<and> ch_isPublished x \<and> has_completed db u x}
        \<subseteq> {x \<in> set (chapters db). ch_courseId x = c \<and> ch_isPublished x}" by blast
  then show ?thesis
    unfolding completed_count_def published_count_def by (simp add: card_mono)
qed

text \<open>
  C1, as the code has it. For a user \<open>u\<close> and a course \<open>c\<close> with \<open>N \<ge> 1\<close> published
  chapters of which \<open>u\<close> has completed exactly \<open>k\<close> (a chapter counts when some progress
  record of \<open>u\<close> for it has its flag true; unpublished chapters and records with a false
  flag do not count), \<open>calculateCourseProgress\<close> returns the double that the two
  operations of \<open>(k / N) * 100\<close> produce: the quotient \<open>k / N\<close> rounded to a double
  \<open>q\<close>, and the product \<open>q \<cdot> 100\<close> rounded to a double \<open>r\<close>. The result \<open>r\<close> is in
  \<open>[0, 100]\<close>, and for an array length \<open>N\<close> (below \<open>2 ^ 32\<close>) it differs from
  \<open>100 \<cdot> k / N\<close> by at most the fraction \<open>1 / 2 ^ 51\<close> of that value. Chapters are
  counted as rows of the chapter table, whose identifiers are its primary key.
\<close>

theorem calculateCourseProgress_rounded:
  assumes "chapter_ids_distinct db"
    and "published_count db c = N" and "1 \<le> N"
    and "completed_count db u c = k"
  shows "\<exists>q r. round64 (of_nat k / of_nat N) = Num q \<and> round64 (q * 100) = Num r
           \<and> calculateCourseProgress db u c = Num r
           \<and> 0 \<le> r \<and> r \<le> 100
           \<and> (N < 2 ^ 32 \<longrightarrow>
                \<bar>r - 100 * of_nat k / of_nat N\<bar> \<le> 100 * of_nat k / of_nat N / 2 ^ 51)"
proof -
  from completed_le_published [of db u c] assms have "k \<le> N" by simp
  from percent_rounded [OF \<open>1 \<le> N\<close> this] obtain q r where
    q: "round64 (of_nat k / of_nat N) = Num q" and r: "round64 (q * 100) = Num r"
    and range: "0 \<le> r" "r \<le> 100"
    and near: "N < 2 ^ 32 \<longrightarrow>
                \<bar>r - 100 * of_nat k / of_nat N\<bar> \<le> 100 * of_nat k / of_nat N / 2 ^ 51"
    by blast
  from \<open>1 \<le> N\<close> have "js_div (Num (of_nat k)) (Num (of_nat N)) = Num q"
    by (simp add: q)
  then have "calculateCourseProgress db u c = Num r"
    using assms by (simp add: progress_quotient r)
  with q r range near show ?thesis by blast
qed

lemma scenario_published: "published_count scenario_store ''course'' = 2"
  unfolding published_count_def scenario_store_def mk_chapter_def
  by code_simp

lemma scenario_completed: "completed_count scenario_store ''U'' ''course'' = 1"
  unfolding completed_count_def scenario_store_def mk_chapter_def has_completed_def
    mk_progress_def
  by code_simp

lemma scenario_distinct: "chapter_ids_distinct scenario_store"
  by (simp add: chapter_ids_distinct_def scenario_store_def mk_chapter_def)

lemma round64_half: "round64 (1 / 2) = Num (1 / 2)"
  by code_simp

text \<open>
  The scenario of the specification: records \<open>{chapter1: true, chapter2: false}\<close>,
  chapters 1 and 2 published and chapter 3 not; the quotient is the double 0.5 and the
  progress is 50.
\<close>

theorem calculateCourseProgress_rounded_witness:
  "chapter_ids_distinct scenario_store
   \<and> published_count scenario_store ''course'' = 2 \<and> (1::nat) \<le> 2
   \<and> completed_count scenario_store ''U'' ''course'' = 1
   \<and> round64 (of_nat 1 / of_nat 2) = Num (1 / 2)
   \<and> calculateCourseProgress scenario_store ''U'' ''course'' = Num 50"
proof -
  from calculateCourseProgress_rounded
    [OF scenario_distinct scenario_published _ scenario_completed]
  obtain q r where q: "round64 (of_nat 1 / of_nat 2) = Num q"
    and r: "calculateCourseProgress scenario_store ''U'' ''course'' = Num r"
    and range: "0 \<le> r" "r \<le> 100"
    and near: "(2::nat) < 2 ^ 32 \<longrightarrow>
        \<bar>r - 100 * of_nat 1 / of_nat 2\<bar> \<le> 100 * of_nat 1 / of_nat 2 / 2 ^ 51"
    by auto
  from q have half: "round64 (of_nat 1 / of_nat 2) = Num (1 / 2)"
    by (simp add: round64_half)
  have "calculateCourseProgress scenario_store ''U'' ''course''
      = js_mul (js_div (Num 1) (Num 2)) (Num 100)"
    by (simp add: progress_quotient [OF scenario_distinct] scenario_published
          scenario_completed)
  also have "\<dots> = round64 50" by (simp add: round64_half)
  also have "\<dots> = Num 50" by code_simp
  finally have "calculateCourseProgress scenario_store ''U'' ''course'' = Num 50" .
  with half r scenario_distinct scenario_published scenario_completed
  show ?thesis by simp
qed

lemma twenty_distinct: "chapter_ids_distinct twenty_store"
  by (simp add: chapter_ids_distinct_def twenty_store_def mk_chapter_def)

lemma twenty_published: "published_count twenty_store ''course'' = 20"
proof -
  have "length (chapter_findMany_published twenty_store ''course'' ''U'') = 20"
    by (simp add: chapter_findMany_published_def twenty_store_def mk_chapter_def)
  then show ?thesis by (simp only: found_length [OF twenty_distinct])
qed

lemma twenty_completed: "completed_count twenty_store ''U'' ''course'' = 11"
proof -
  have "length (filter (\<lambda>(chapter, progress). list_ex up_isCompleted progress)
             (chapter_findMany_published twenty_store ''course'' ''U'')) = 11"
    by (simp add: chapter_findMany_published_def twenty_store_def mk_chapter_def
          mk_progress_def)
  then show ?thesis by (simp only: completed_length [OF twenty_distinct])
qed

lemma round64_eleven_twentieths:
  "round64 (11 / 20) = Num (2476979795053773 / 4503599627370496)"
  by code_simp

lemma round64_fifty_five:
  "round64 (2476979795053773 / 4503599627370496 * 100) = Num (55 + 1 / 2 ^ 47)"
  by code_simp

text \<open>
  The claim as stated fails: with 11 of 20 published chapters completed, \<open>100 \<cdot> k / N\<close>
  is 55, and the code returns the next double above it, \<open>55 + 2 powi (- 47)\<close> (printed
  as 55.00000000000001): the quotient 11 / 20 is not a double, and the product of 100
  and the double beside it rounds upwards.
\<close>

theorem calculateCourseProgress_rounded_counterexample:
  "chapter_ids_distinct twenty_store
   \<and> published_count twenty_store ''course'' = 20
   \<and> completed_count twenty_store ''U'' ''course'' = 11
   \<and> calculateCourseProgress twenty_store ''U'' ''course'' = Num (55 + 1 / 2 ^ 47)
   \<and> calculateCourseProgress twenty_store ''U'' ''course'' \<noteq> Num (100 * 11 / 20)"
proof -
  have "calculateCourseProgress twenty_store ''U'' ''course''
      = js_mul (js_div (Num 11) (Num 20)) (Num 100)"
    by (simp add: progress_quotient [OF twenty_distinct] twenty_published twenty_completed)
  also have "\<dots> = js_mul (Num (2476979795053773 / 4503599627370496)) (Num 100)"
    by (simp add: round64_eleven_twentieths)
  also have "\<dots> = Num (55 + 1 / 2 ^ 47)"
    by (simp only: js_mul.simps round64_fifty_five)
  finally have r: "calculateCourseProgress twenty_store ''U'' ''course'' = Num (55 + 1 / 2 ^ 47)" .
  then have "calculateCourseProgress twenty_store ''U'' ''course'' \<noteq> Num (100 * 11 / 20)"
    by simp
  with r twenty_distinct twenty_published twenty_completed show ?thesis by blast
qed

subsection \<open>The range of the result, and the course without published chapters\<close>

lemma calculateCourseProgress_range:
  assumes "chapter_ids_distinct db" and "1 \<le> published_count db c"
  shows "\<exists>r. calculateCourseProgress db u c = Num r \<and> 0 \<le> r \<and> r \<le> 100"
proof -
  from percent_rounded [OF assms(2) completed_le_published [of db u c]] obtain q r where
    q: "round64 (of_nat (completed_count db u c) / of_nat (published_count db c)) = Num q"
    and r: "round64 (q * 100) = Num r" and range: "0 \<le> r" "r \<le> 100"
    by blast
  from assms(2) have "js_div (Num (of_nat (completed_count db u c)))
      (Num (of_nat (published_count db c))) = Num q"
    by (simp add: q)
  then have "calculateCourseProgress db u c = Num r"
    by (simp add: progress_quotient [OF assms(1)] r)
  with range show ?thesis by blast
qed

lemma calculateCourseProgress_NaN:
  assumes "chapter_ids_distinct db" and "published_count db c = 0"
  shows "calculateCourseProgress db u c = NaN"
proof -
  from assms have "chapter_findMany_published db c u = []"
    using found_length [of db c u] by simp
  then show ?thesis by (simp add: calculateCourseProgress_def js_length_def)
qed

lemma fresh_course_store:
  "fst (createCourse env0 empty_store ''teacher'' algebra_course)
     = \<lparr>courses = [snd (createCourse env0 empty_store ''teacher'' algebra_course)],
        chapters = [(mk_chapter ''id-x'' ''id-'' 0 False)
                      \<lparr>ch_title := ''Groups'', ch_createdAt := 7, ch_updatedAt := 7\<rparr>,
                    (mk_chapter ''id-xx'' ''id-'' 1 False)
                      \<lparr>ch_title := ''Rings'', ch_createdAt := 7, ch_updatedAt := 7\<rparr>],
        userProgress = [], purchases = []\<rparr>"
  by (simp add: createCourse_def env0_def empty_store_def algebra_course_def
        mk_chapter_def Let_def)

text \<open>
  C2. The specification wants, for every user and course, a percentage in \<open>[0, 100]\<close>
  or, exactly when the course has no published chapter, a defined sentinel, and never
  \<open>NaN\<close>. With a published chapter the result is in \<open>[0, 100]\<close>
  (\<open>calculateCourseProgress_range\<close>); without one the unguarded division is \<open>0 / 0\<close>
  (\<open>calculateCourseProgress_NaN\<close>). Here at a course as \<open>createCourse\<close> leaves it,
  its chapters not yet published: the course has no published chapter and its progress
  is \<open>NaN\<close>.
\<close>

theorem calculateCourseProgress_fresh_course_NaN:
  "published_count (fst (createCourse env0 empty_store ''teacher'' algebra_course)) ''id-'' = 0
   \<and> co_id (snd (createCourse env0 empty_store ''teacher'' algebra_course)) = ''id-''
   \<and> calculateCourseProgress
        (fst (createCourse env0 empty_store ''teacher'' algebra_course)) ''U'' ''id-'' = NaN"
proof -
  have "published_count (fst (createCourse env0 empty_store ''teacher'' algebra_course)) ''id-'' = 0"
    unfolding fresh_course_store by (auto simp add: published_count_def mk_chapter_def)
  moreover have "co_id (snd (createCourse env0 empty_store ''teacher'' algebra_course)) = ''id-''"
    by (simp add: createCourse_def env0_def Let_def)
  moreover have "calculateCourseProgress
        (fst (createCourse env0 empty_store ''teacher'' algebra_course)) ''U'' ''id-'' = NaN"
    unfolding fresh_course_store
    by (simp add: calculateCourseProgress_def chapter_findMany_published_def js_length_def
          mk_chapter_def)
  ultimately show ?thesis by blast
qed

section \<open>The reorder batch\<close>

lemma find_chapter_None:
  "find (\<lambda>c. ch_id c = i) cs = None \<longleftrightarrow> \<not> list_ex (\<lambda>c. ch_id c = i) cs"
  by (auto simp add: find_None_iff list_ex_iff)

lemma check_position_ok:
  "position_ok v \<Longrightarrow> check_position v = Inr (position_value v)"
  by (cases v)
     (auto simp add: position_ok_def check_position_def position_value_def
        split: if_splits)

lemma check_position_refused:
  "\<not> position_ok v \<Longrightarrow>
   check_position v = Inl ValidationError \<or> check_position v = Inl ValueOutOfRange"
  by (cases v) (auto simp add: position_ok_def check_position_def split: if_splits)



lemma chapter_update_found:
  "position_ok (upd_position u) \<Longrightarrow> list_ex (\<lambda>c. ch_id c = upd_id u) (chapters db) \<Longrightarrow>
   \<exists>r. chapter_update e (upd_id u) (upd_position u) db
        = (db\<lparr>chapters := set_position e u (chapters db)\<rparr>, Inr r)"
  unfolding chapter_update_def set_position_def
  by (cases "find (\<lambda>c. ch_id c = upd_id u) (chapters db)")
     (simp_all add: find_chapter_None check_position_ok)

lemma chapter_update_refused:
  assumes "\<not> (position_ok (upd_position u) \<and> list_ex (\<lambda>c. ch_id c = upd_id u) (chapters db))"
  shows "\<exists>err. chapter_update e (upd_id u) (upd_position u) db = (db, Inl err)
               \<and> (err = ValidationError \<or> err = ValueOutOfRange \<or> err = RecordNotFound)"
proof (cases "position_ok (upd_position u)")
  case False
  from check_position_refused [OF this] show ?thesis
    by (auto simp add: chapter_update_def)
next
  case True
  with assms have "find (\<lambda>c. ch_id c = upd_id u) (chapters db) = None"
    by (simp add: find_chapter_None)
  with True show ?thesis
    by (simp add: chapter_update_def check_position_ok)
qed

lemma set_position_ids: "map ch_id (set_position e u cs) = map ch_id cs"
  by (simp add: set_position_def)

lemma list_ex_set_position:
  "list_ex (\<lambda>c. ch_id c = i) (set_position e u cs) = list_ex (\<lambda>c. ch_id c = i) cs"
proof -
  have *: "list_ex (\<lambda>c. ch_id c = i) xs = (i \<in> set (map ch_id xs))"
    for xs :: "Chapter list"
    by (auto simp add: list_ex_iff)
  show ?thesis unfolding * set_position_ids ..
qed

lemma batch_ok_set_position:
  "batch_ok (db\<lparr>chapters := set_position e u (chapters db)\<rparr>) us = batch_ok db us"
  by (simp add: batch_ok_def ids_exist_def list_ex_set_position)

lemma batch_ok_Cons:
  "batch_ok db (u # us)
   = ((position_ok (upd_position u) \<and> list_ex (\<lambda>c. ch_id c = upd_id u) (chapters db))
      \<and> batch_ok db us)"
  by (auto simp add: batch_ok_def ids_exist_def)

lemma run_batch_all:
  "batch_ok db us \<Longrightarrow>
   \<exists>rs. run_batch (updates_of e us) db
         = (db\<lparr>chapters := all_applied e us (chapters db)\<rparr>, Inr rs)"
proof (induction us arbitrary: db)
  case Nil
  then show ?case by (simp add: all_applied_def)
next
  case (Cons u us)
  let ?db1 = "db\<lparr>chapters := set_position e u (chapters db)\<rparr>"
  from Cons.prems have here: "position_ok (upd_position u)"
    "list_ex (\<lambda>c. ch_id c = upd_id u) (chapters db)"
    and rest: "batch_ok db us"
    by (simp_all add: batch_ok_Cons)
  from chapter_update_found [OF here] obtain r where
    first: "chapter_update e (upd_id u) (upd_position u) db = (?db1, Inr r)" by blast
  from rest have "batch_ok ?db1 us" by (simp only: batch_ok_set_position)
  from Cons.IH [OF this] obtain rs where
    "run_batch (updates_of e us) ?db1
       = (?db1\<lparr>chapters := all_applied e us (chapters ?db1)\<rparr>, Inr rs)" by blast
  with first show ?case by (simp add: all_applied_def)
qed

lemma run_batch_none:
  "\<not> batch_ok db us \<Longrightarrow>
   \<exists>db' err. run_batch (updates_of e us) db = (db', Inl err)
     \<and> (err = ValidationError \<or> err = ValueOutOfRange \<or> err = RecordNotFound)"
proof (induction us arbitrary: db)
  case Nil
  then show ?case by (simp add: batch_ok_def ids_exist_def)
next
  case (Cons u us)
  show ?case
  proof (cases "position_ok (upd_position u)
                \<and> list_ex (\<lambda>c. ch_id c = upd_id u) (chapters db)")
    case False
    from chapter_update_refused [OF this, of e] show ?thesis by auto
  next
    case True
    let ?db1 = "db\<lparr>chapters := set_position e u (chapters db)\<rparr>"
    from True chapter_update_found [of u db e] obtain r where
      first: "chapter_update e (upd_id u) (upd_position u) db = (?db1, Inr r)" by blast
    from True Cons.prems have "\<not> batch_ok db us" by (simp add: batch_ok_Cons)
    then have "\<not> batch_ok ?db1 us" by (simp add: batch_ok_set_position)
    from Cons.IH [OF this] obtain db' err where
      "run_batch (updates_of e us) ?db1 = (db', Inl err)"
      "err = ValidationError \<or> err = ValueOutOfRange \<or> err = RecordNotFound" by blast
    with first show ?thesis by simp
  qed
qed

lemma reorderChapters_ok:
  assumes "batch_ok db us"
  shows "reorderChapters e db courseId us
           = (db\<lparr>chapters := all_applied e us (chapters db)\<rparr>, Inr ())"
proof -
  from run_batch_all [OF assms, of e] obtain rs where
    "run_batch (updates_of e us) db
       = (db\<lparr>chapters := all_applied e us (chapters db)\<rparr>, Inr rs)" by blast
  then show ?thesis
    by (simp add: reorderChapters_def prisma_transaction_def)
qed

lemma reorderChapters_refused:
  assumes "\<not> batch_ok db us"
  shows "\<exists>err. reorderChapters e db courseId us = (db, Inl err)
               \<and> (err = ValidationError \<or> err = ValueOutOfRange \<or> err = RecordNotFound)"
proof -
  from run_batch_none [OF assms, of e] obtain db' err where
    "run_batch (updates_of e us) db = (db', Inl err)"
    "err = ValidationError \<or> err = ValueOutOfRange \<or> err = RecordNotFound" by blast
  then show ?thesis
    by (simp add: reorderChapters_def prisma_transaction_def)
qed

lemma reorderChapters_succeeds: 
  "snd (reorderChapters e db courseId us) = Inr () \<Longrightarrow> batch_ok db us"
proof (rule ccontr)
  assume ok: "snd (reorderChapters e db courseId us) = Inr ()" and "\<not> batch_ok db us"
  from reorderChapters_refused [OF this(2), of e courseId] ok show False by auto
qed

lemma reordered_step:
  "reordered e us (if ch_id c = upd_id u
                   then c\<lparr>ch_position := position_value (upd_position u),
                          ch_updatedAt := now e\<rparr> else c)
   = reordered e (u # us) c"
  by (simp add: reordered_def split: option.splits)

lemma all_applied_reordered: "all_applied e us cs = map (reordered e us) cs"
proof (induction us arbitrary: cs)
  case Nil
  then show ?case by (simp add: all_applied_def reordered_def)
next
  case (Cons u us)
  have "all_applied e (u # us) cs = all_applied e us (set_position e u cs)"
    by (simp add: all_applied_def)
  also have "\<dots> = map (reordered e us) (set_position e u cs)" by (rule Cons.IH)
  also have "\<dots> = map (reordered e (u # us)) cs"
    unfolding set_position_def map_map o_def reordered_step ..
  finally show ?case .
qed

subsection \<open>All or nothing\<close>

text \<open>
  The rollback, for any queries: whichever query of a batch raises, and whatever it
  raises, the transaction leaves the store as it found it.
\<close>

lemma prisma_transaction_rollback:
  "snd (prisma_transaction qs db) = Inl err \<Longrightarrow> fst (prisma_transaction qs db) = db"
  by (simp add: prisma_transaction_def split: prod.splits sum.splits)

lemma reorderChapters_transaction:
  "fst (reorderChapters e db courseId us) = fst (prisma_transaction (updates_of e us) db)"
  "(snd (reorderChapters e db courseId us) = Inl err)
     = (snd (prisma_transaction (updates_of e us) db) = Inl err)"
proof -
  obtain db' r where run: "prisma_transaction (updates_of e us) db = (db', r)"
    by (cases "prisma_transaction (updates_of e us) db")
  show "fst (reorderChapters e db courseId us) = fst (prisma_transaction (updates_of e us) db)"
    by (cases r) (simp_all add: reorderChapters_def run)
  show "(snd (reorderChapters e db courseId us) = Inl err)
     = (snd (prisma_transaction (updates_of e us) db) = Inl err)"
    by (cases r) (simp_all add: reorderChapters_def run)
qed

lemma abc_swap_ok: "batch_ok abc_store swap_AC"
  by (simp add: batch_ok_def ids_exist_def abc_store_def swap_AC_def mk_chapter_def
        position_ok_def check_position_def)



text \<open>
  C3. Chapter reordering is atomic: for every batch, when \<open>reorderChapters\<close> succeeds
  the store is the old one with every update of the batch applied, and when it raises
  the store is the old one, with no update applied. The atomicity is that of
  \<open>prisma.$transaction\<close>, which rolls the store back when a query of the batch raises.
\<close>

theorem reorderChapters_atomic:
  "(snd (reorderChapters e db courseId us) = Inr () \<longrightarrow>
      fst (reorderChapters e db courseId us)
        = db\<lparr>chapters := all_applied e us (chapters db)\<rparr>)
   \<and> (\<forall>err. snd (reorderChapters e db courseId us) = Inl err \<longrightarrow>
      fst (reorderChapters e db courseId us) = db)"
proof (intro conjI allI impI)
  assume "snd (reorderChapters e db courseId us) = Inr ()"
  then have "batch_ok db us" by (rule reorderChapters_succeeds)
  then show "fst (reorderChapters e db courseId us)
        = db\<lparr>chapters := all_applied e us (chapters db)\<rparr>"
    by (simp add: reorderChapters_ok)
next
  fix err
  assume "snd (reorderChapters e db courseId us) = Inl err"
  then have "snd (prisma_transaction (updates_of e us) db) = Inl err"
    by (simp only: reorderChapters_transaction)
  then have "fst (prisma_transaction (updates_of e us) db) = db"
    by (rule prisma_transaction_rollback)
  then show "fst (reorderChapters e db courseId us) = db"
    by (simp only: reorderChapters_transaction)
qed

lemma broken_run:
  "run_batch (updates_of env0 broken_batch) abc_store
     = (abc_store\<lparr>chapters := set_position env0 (hd broken_batch) (chapters abc_store)\<rparr>,
        Inl RecordNotFound)"
  by (simp add: broken_batch_def abc_store_def mk_chapter_def chapter_update_def
        check_position_def set_position_def position_value_def)

text \<open>
  Chapters A, B, C at positions 0, 1, 2: swapping A and C leaves C at 0, B at 1 and A
  at 2. A batch whose second update raises leaves the store as it was, although the
  queries run so far had already moved A.
\<close>

theorem reorderChapters_atomic_witness:
  "snd (reorderChapters env0 abc_store ''course'' swap_AC) = Inr ()
   \<and> map (\<lambda>c. (ch_id c, ch_position c))
        (chapters (fst (reorderChapters env0 abc_store ''course'' swap_AC)))
      = [(''A'', 2), (''B'', 1), (''C'', 0)]
   \<and> snd (reorderChapters env0 abc_store ''course'' broken_batch) = Inl RecordNotFound
   \<and> fst (reorderChapters env0 abc_store ''course'' broken_batch) = abc_store
   \<and> map (\<lambda>c. (ch_id c, ch_position c))
        (chapters (fst (run_batch (updates_of env0 broken_batch) abc_store)))
      = [(''A'', 2), (''B'', 1), (''C'', 2)]"
proof -
  have ok: "snd (reorderChapters env0 abc_store ''course'' swap_AC) = Inr ()"
    by (simp add: reorderChapters_ok abc_swap_ok)
  have bad: "snd (reorderChapters env0 abc_store ''course'' broken_batch) = Inl RecordNotFound"
    by (simp add: reorderChapters_def prisma_transaction_def broken_run)
  from ok reorderChapters_atomic [of env0 abc_store "''course''" swap_AC]
  have "fst (reorderChapters env0 abc_store ''course'' swap_AC)
          = abc_store\<lparr>chapters := all_applied env0 swap_AC (chapters abc_store)\<rparr>" by blast
  then have swapped: "map (\<lambda>c. (ch_id c, ch_position c))
        (chapters (fst (reorderChapters env0 abc_store ''course'' swap_AC)))
      = [(''A'', 2), (''B'', 1), (''C'', 0)]"
    by (simp add: all_applied_def set_position_def swap_AC_def abc_store_def mk_chapter_def
          position_value_def)
  from bad reorderChapters_atomic [of env0 abc_store "''course''" broken_batch]
  have rolled: "fst (reorderChapters env0 abc_store ''course'' broken_batch) = abc_store"
    by blast
  have partial: "map (\<lambda>c. (ch_id c, ch_position c))
        (chapters (fst (run_batch (updates_of env0 broken_batch) abc_store)))
      = [(''A'', 2), (''B'', 1), (''C'', 2)]"
    unfolding broken_run
    by (simp add: broken_batch_def abc_store_def mk_chapter_def set_position_def
          position_value_def)
  from ok swapped bad rolled partial show ?thesis by blast
qed

subsection \<open>The course identifier\<close>

lemma wide_refused:
  "reorderChapters env0 abc_store courseId wide_batch = (abc_store, Inl ValueOutOfRange)"
proof -
  have "run_batch (updates_of env0 wide_batch) abc_store
     = (abc_store\<lparr>chapters := set_position env0 (hd wide_batch) (chapters abc_store)\<rparr>,
        Inl ValueOutOfRange)"
    by (simp add: wide_batch_def abc_store_def mk_chapter_def chapter_update_def
          check_position_def set_position_def position_value_def)
  then show ?thesis by (simp add: reorderChapters_def prisma_transaction_def)
qed

text \<open>
  C10, as the code has it. \<open>reorderChapters\<close> does not use its course identifier: two
  calls that differ only in it return the same store and outcome. When every listed
  position is an integer that fits the 32-bit column and every listed identifier
  references a chapter, the call succeeds and every update is applied to the chapter
  with the listed identifier, of whatever course: each chapter has the position of the
  last update that lists it, and the chapters that no update lists are as before. For
  every other batch the call raises and no update is applied.
\<close>

theorem reorderChapters_ignores_courseId:
  "reorderChapters e db courseId us = reorderChapters e db courseId' us
   \<and> (batch_ok db us \<longrightarrow>
        reorderChapters e db courseId us
          = (db\<lparr>chapters := map (reordered e us) (chapters db)\<rparr>, Inr ()))
   \<and> (\<not> batch_ok db us \<longrightarrow> (\<exists>err. reorderChapters e db courseId us = (db, Inl err)))"
proof (intro conjI impI)
  show "reorderChapters e db courseId us = reorderChapters e db courseId' us"
    by (simp add: reorderChapters_def)
next
  assume "batch_ok db us"
  then show "reorderChapters e db courseId us
          = (db\<lparr>chapters := map (reordered e us) (chapters db)\<rparr>, Inr ())"
    by (simp add: reorderChapters_ok all_applied_reordered)
next
  assume "\<not> batch_ok db us"
  from reorderChapters_refused [OF this]
  show "\<exists>err. reorderChapters e db courseId us = (db, Inl err)" by blast
qed

text \<open>
  The chapters of \<open>''course''\<close> are reordered by a call for another course; a batch
  with a position that does not fit the column changes nothing.
\<close>

theorem reorderChapters_ignores_courseId_witness:
  "reorderChapters env0 abc_store ''course'' swap_AC
     = reorderChapters env0 abc_store ''another course'' swap_AC
   \<and> batch_ok abc_store swap_AC
   \<and> snd (reorderChapters env0 abc_store ''another course'' swap_AC) = Inr ()
   \<and> map (\<lambda>c. (ch_courseId c, ch_id c, ch_position c))
        (chapters (fst (reorderChapters env0 abc_store ''another course'' swap_AC)))
      = [(''course'', ''A'', 2), (''course'', ''B'', 1), (''course'', ''C'', 0)]
   \<and> \<not> batch_ok abc_store wide_batch
   \<and> fst (reorderChapters env0 abc_store ''another course'' wide_batch) = abc_store"
proof -
  note t = reorderChapters_ignores_courseId
    [of env0 abc_store "''another course''" swap_AC "''course''"]
  from t abc_swap_ok
  have run: "reorderChapters env0 abc_store ''another course'' swap_AC
      = (abc_store\<lparr>chapters := map (reordered env0 swap_AC) (chapters abc_store)\<rparr>, Inr ())"
    by blast
  then have ok: "snd (reorderChapters env0 abc_store ''another course'' swap_AC) = Inr ()"
    by simp
  from run have "map (\<lambda>c. (ch_courseId c, ch_id c, ch_position c))
        (chapters (fst (reorderChapters env0 abc_store ''another course'' swap_AC)))
      = [(''course'', ''A'', 2), (''course'', ''B'', 1), (''course'', ''C'', 0)]"
    by (simp add: reordered_def swap_AC_def abc_store_def mk_chapter_def position_value_def)
  moreover have wide: "\<not> batch_ok abc_store wide_batch"
    by (simp add: batch_ok_def wide_batch_def position_ok_def check_position_def)
  from wide
    reorderChapters_ignores_courseId
      [of env0 abc_store "''another course''" wide_batch "''course''"]
  obtain err where
    "reorderChapters env0 abc_store ''another course'' wide_batch = (abc_store, Inl err)"
    by blast
  then have "fst (reorderChapters env0 abc_store ''another course'' wide_batch) = abc_store"
    by simp
  moreover note wide
  ultimately show ?thesis using t ok abc_swap_ok by simp
qed

text \<open>
  The claim as stated fails, since not every update list is applied: the batch that
  lists A with position 2 and then an identifier that references no chapter leaves A
  at position 0; and the batch that lists B with position 5 and then A with a position
  of \<open>2 ^ 31\<close>, all of whose identifiers reference chapters, leaves B at position 1.
\<close>

theorem reorderChapters_ignores_courseId_counterexample:
  "list_ex (\<lambda>u. upd_id u = ''A'' \<and> upd_position u = Num 2) broken_batch
   \<and> map (\<lambda>c. (ch_id c, ch_position c))
        (chapters (fst (reorderChapters env0 abc_store ''course'' broken_batch)))
      = [(''A'', 0), (''B'', 1), (''C'', 2)]
   \<and> list_ex (\<lambda>u. upd_id u = ''B'' \<and> upd_position u = Num 5) wide_batch
   \<and> list_all (\<lambda>u. list_ex (\<lambda>c. ch_id c = upd_id u) (chapters abc_store)) wide_batch
   \<and> map (\<lambda>c. (ch_id c, ch_position c))
        (chapters (fst (reorderChapters env0 abc_store ''course'' wide_batch)))
      = [(''A'', 0), (''B'', 1), (''C'', 2)]"
proof -
  have a: "list_ex (\<lambda>u. upd_id u = ''A'' \<and> upd_position u = Num 2) broken_batch"
    by (simp add: broken_batch_def)
  have "reorderChapters env0 abc_store ''course'' broken_batch = (abc_store, Inl RecordNotFound)"
    by (simp add: reorderChapters_def prisma_transaction_def broken_run)
  then have b: "map (\<lambda>c. (ch_id c, ch_position c))
        (chapters (fst (reorderChapters env0 abc_store ''course'' broken_batch)))
      = [(''A'', 0), (''B'', 1), (''C'', 2)]"
    by (simp add: abc_store_def mk_chapter_def)
  have c: "list_ex (\<lambda>u. upd_id u = ''B'' \<and> upd_position u = Num 5) wide_batch"
    by (simp add: wide_batch_def)
  have d: "list_all (\<lambda>u. list_ex (\<lambda>c. ch_id c = upd_id u) (chapters abc_store)) wide_batch"
    by (simp add: wide_batch_def abc_store_def mk_chapter_def)
  have e: "map (\<lambda>c. (ch_id c, ch_position c))
        (chapters (fst (reorderChapters env0 abc_store ''course'' wide_batch)))
      = [(''A'', 0), (''B'', 1), (''C'', 2)]"
    by (simp add: wide_refused) (simp add: abc_store_def mk_chapter_def)
  from a b c d e show ?thesis by blast
qed

subsection \<open>Positions within a course\<close>










section \<open>The upsert\<close>

lemma has_key_iff: "has_key u c p \<longleftrightarrow> key_of p = (u, c)"
  by (auto simp add: has_key_def)

lemma find_has_key_None:
  "find (has_key u c) ps = None \<longleftrightarrow> (u, c) \<notin> set (map key_of ps)"
  by (auto simp add: find_None_iff has_key_iff)

lemma find_has_key_Some:
  "find (has_key u c) ps = Some p \<Longrightarrow> has_key u c p \<and> p \<in> set ps"
  by (induction ps) (auto split: if_splits)

lemma key_touch: "key_of (touch u c f t x) = key_of x"
  by (simp add: touch_def)

lemma has_key_touch: "has_key u' c' (touch u c f t x) = has_key u' c' x"
  by (simp add: touch_def has_key_def)

lemma trackProgress_undeclared:
  "''chapterProgress'' \<notin> set (delegates e) \<Longrightarrow>
   trackProgress e db u c f = (db, Inl TypeError)"
  by (simp add: trackProgress_def)

lemma trackProgress_declared:
  "''chapterProgress'' \<in> set (delegates e) \<Longrightarrow>
   trackProgress e db u c f = userProgress_upsert e u c f db"
  by (simp add: trackProgress_def)

lemma upsert_found:
  "find (has_key u c) (userProgress db) = Some p \<Longrightarrow>
   userProgress_upsert e u c f db
     = (db\<lparr>userProgress := map (touch u c f (now e)) (userProgress db)\<rparr>,
        Inr (touch u c f (now e) p))"
  by (frule find_has_key_Some)
     (simp add: userProgress_upsert_def touch_def [abs_def])

lemma upsert_refused:
  "find (has_key u c) (userProgress db) = None \<Longrightarrow>
   relationMode e = ForeignKeys \<Longrightarrow> \<not> list_ex (\<lambda>x. ch_id x = c) (chapters db) \<Longrightarrow>
   userProgress_upsert e u c f db = (db, Inl ForeignKeyViolation)"
  by (simp add: userProgress_upsert_def)

lemma upsert_created:
  "find (has_key u c) (userProgress db) = None \<Longrightarrow>
   relationMode e = PrismaEmulated \<or> list_ex (\<lambda>x. ch_id x = c) (chapters db) \<Longrightarrow>
   userProgress_upsert e u c f db
     = (db\<lparr>userProgress := userProgress db @ [fresh_row e u c f]\<rparr>, Inr (fresh_row e u c f))"
  by (auto simp add: userProgress_upsert_def fresh_row_def Let_def)

lemma trackProgress_cases:
  obtains
    (undeclared) "''chapterProgress'' \<notin> set (delegates e)"
      "trackProgress e db u c f = (db, Inl TypeError)"
  | (found) p where "find (has_key u c) (userProgress db) = Some p"
      "trackProgress e db u c f
         = (db\<lparr>userProgress := map (touch u c f (now e)) (userProgress db)\<rparr>,
            Inr (touch u c f (now e) p))"
  | (refused) "find (has_key u c) (userProgress db) = None"
      "relationMode e = ForeignKeys" "\<not> list_ex (\<lambda>x. ch_id x = c) (chapters db)"
      "trackProgress e db u c f = (db, Inl ForeignKeyViolation)"
  | (created) "find (has_key u c) (userProgress db) = None"
      "relationMode e = PrismaEmulated \<or> list_ex (\<lambda>x. ch_id x = c) (chapters db)"
      "trackProgress e db u c f
         = (db\<lparr>userProgress := userProgress db @ [fresh_row e u c f]\<rparr>,
            Inr (fresh_row e u c f))"
proof (cases "''chapterProgress'' \<in> set (delegates e)")
  case False
  then show ?thesis using undeclared trackProgress_undeclared by blast
next
  case declared: True
  note run = trackProgress_declared [OF declared]
  show ?thesis
  proof (cases "find (has_key u c) (userProgress db)")
    case (Some p)
    then show ?thesis using found upsert_found run by metis
  next
    case None
    show ?thesis
    proof (cases "relationMode e = PrismaEmulated \<or> list_ex (\<lambda>x. ch_id x = c) (chapters db)")
      case True
      then show ?thesis using None created upsert_created run by metis
    next
      case False
      then have "relationMode e = ForeignKeys" by (cases "relationMode e") auto
      with False None show ?thesis using refused upsert_refused run by metis
    qed
  qed
qed

lemma trackProgress_unique:
  "unique_progress db \<Longrightarrow> unique_progress (fst (trackProgress e db u c f))"
proof (cases rule: trackProgress_cases [of e db u c f])
  case undeclared
  assume "unique_progress db"
  then show ?thesis by (simp add: undeclared)
next
  case (found p)
  assume "unique_progress db"
  then show ?thesis
    by (simp add: found unique_progress_def o_def key_touch)
next
  case refused
  assume "unique_progress db"
  then show ?thesis by (simp add: refused)
next
  case created
  assume "unique_progress db"
  with created(1) show ?thesis
    by (simp add: created(3) unique_progress_def find_has_key_None fresh_row_def)
qed

lemma scenario_unique: "unique_progress scenario_store"
  by (simp add: unique_progress_def scenario_store_def mk_progress_def)

lemma env0_undeclared: "''chapterProgress'' \<notin> set (delegates env0)"
  by (simp add: env0_def schema_delegates_def)

lemma env_declared_declared: "''chapterProgress'' \<in> set (delegates env_declared)"
  by (simp add: env_declared_def)

subsection \<open>Calling twice\<close>

text \<open>
  C4. The specification wants exactly one progress record for (user, chapter), with
  the given flag, after the operation has been called twice. With the client of the
  schema of the source, \<open>prisma.chapterProgress\<close> is undefined: the call raises a
  \<open>TypeError\<close> and leaves the store as it is, so after two calls for chapter 3 there is
  no record for the pair.
\<close>

theorem trackProgress_twice_as_written:
  "trackProgress env0 scenario_store ''U'' ''chapter3'' True = (scenario_store, Inl TypeError)
   \<and> filter (has_key ''U'' ''chapter3'')
        (userProgress
          (fst (trackProgress env0
                 (fst (trackProgress env0 scenario_store ''U'' ''chapter3'' True))
                 ''U'' ''chapter3'' True))) = []"
proof -
  have once: "trackProgress env0 scenario_store ''U'' ''chapter3'' True
      = (scenario_store, Inl TypeError)"
    using env0_undeclared by (rule trackProgress_undeclared)
  have "filter (has_key ''U'' ''chapter3'') (userProgress scenario_store) = []"
    by (simp add: scenario_store_def mk_progress_def has_key_def)
  with once show ?thesis by simp
qed

subsection \<open>One row per user and chapter\<close>

text \<open>
  C5. Every operation preserves the invariant that at most one progress row exists per
  (user, chapter) pair: when the store satisfies it, so does the store after
  \<open>trackProgress\<close>, after \<open>calculateCourseProgress\<close>, after \<open>reorderChapters\<close> and
  after \<open>createCourse\<close>, whatever their arguments and outcome, and whatever delegates
  the client has.
\<close>

theorem unique_progress_preserved:
  "unique_progress db \<Longrightarrow> unique_progress (store_after e r db)"
proof (cases r)
  case (TrackProgress u c f)
  assume "unique_progress db"
  then show ?thesis unfolding TrackProgress store_after.simps by (rule trackProgress_unique)
next
  case (CalculateCourseProgress u c)
  assume "unique_progress db"
  then show ?thesis by (simp add: CalculateCourseProgress)
next
  case (ReorderChapters c us)
  assume inv: "unique_progress db"
  show ?thesis
  proof (cases "batch_ok db us")
    case True
    with inv show ?thesis
      by (simp add: ReorderChapters reorderChapters_ok unique_progress_def)
  next
    case False
    from reorderChapters_refused [OF this, of e c] inv show ?thesis
      by (auto simp add: ReorderChapters)
  qed
next
  case (CreateCourse u d)
  assume "unique_progress db"
  then show ?thesis
    by (simp add: CreateCourse createCourse_def unique_progress_def Let_def)
qed

text \<open>
  With a client that has the delegate, a third row, for chapter 3, joins the two rows
  of the scenario; with the client of the schema the store stays as it is.
\<close>

theorem unique_progress_preserved_witness:
  "unique_progress scenario_store
   \<and> unique_progress
       (store_after env_declared (TrackProgress ''U'' ''chapter3'' True) scenario_store)
   \<and> map key_of (userProgress
        (store_after env_declared (TrackProgress ''U'' ''chapter3'' True) scenario_store))
      = [(''U'', ''chapter1''), (''U'', ''chapter2''), (''U'', ''chapter3'')]
   \<and> unique_progress (store_after env0 (TrackProgress ''U'' ''chapter3'' True) scenario_store)
   \<and> store_after env0 (TrackProgress ''U'' ''chapter3'' True) scenario_store = scenario_store"
proof -
  have "map key_of (userProgress
        (store_after env_declared (TrackProgress ''U'' ''chapter3'' True) scenario_store))
      = [(''U'', ''chapter1''), (''U'', ''chapter2''), (''U'', ''chapter3'')]"
    unfolding store_after.simps trackProgress_declared [OF env_declared_declared]
    by (simp add: userProgress_upsert_def scenario_store_def mk_progress_def mk_chapter_def
          has_key_def env_declared_def env0_def Let_def)
  moreover have "store_after env0 (TrackProgress ''U'' ''chapter3'' True) scenario_store
      = scenario_store"
    by (simp add: trackProgress_undeclared [OF env0_undeclared])
  ultimately show ?thesis
    using scenario_unique unique_progress_preserved [OF scenario_unique] by blast
qed

subsection \<open>Who may set the flag\<close>

text \<open>
  The upsert itself looks up neither the chapter nor a purchase: with a client that has
  the delegate, the call succeeds and writes the row unless the database enforces
  foreign keys, the chapter does not exist and no row for the pair exists yet.
\<close>

lemma find_list_ex: "(find P xs = None) = (\<not> list_ex P xs)"
  by (auto simp add: find_None_iff list_ex_iff)

lemma upsert_unchecked:
  assumes "''chapterProgress'' \<in> set (delegates e)"
    and "relationMode e = PrismaEmulated \<or> list_ex (\<lambda>x. ch_id x = c) (chapters db)
           \<or> list_ex (has_key u c) (userProgress db)"
  shows "\<exists>r. snd (trackProgress e db u c f) = Inr r \<and> has_key u c r \<and> up_isCompleted r = f
             \<and> r \<in> set (userProgress (fst (trackProgress e db u c f)))"
proof (cases rule: trackProgress_cases [of e db u c f])
  case undeclared
  with assms(1) show ?thesis by simp
next
  case (found p)
  from found(1) have "has_key u c p" and "p \<in> set (userProgress db)"
    by (simp_all add: find_has_key_Some)
  then show ?thesis
    by (auto simp add: found(2) touch_def has_key_def)
next
  case refused
  with assms(2) show ?thesis by (simp add: find_list_ex)
next
  case created
  then show ?thesis by (simp add: fresh_row_def has_key_def)
qed

text \<open>
  C7. The specification wants \<open>NotFound\<close> for a chapter identifier that references no
  chapter and \<open>Unauthorized\<close> for a user without a purchase on a chapter that is not
  free. With the client of the schema of the source the call raises a \<open>TypeError\<close>
  instead, for the user without a purchase and for the unknown chapter alike (and for
  every other call); the store is unchanged.
\<close>

theorem trackProgress_unauthorized_as_written:
  "purchases scenario_store = []
   \<and> map (\<lambda>c. (ch_id c, ch_isFree c)) (chapters scenario_store)
      = [(''chapter1'', False), (''chapter2'', False), (''chapter3'', False)]
   \<and> trackProgress env0 scenario_store ''V'' ''chapter2'' True = (scenario_store, Inl TypeError)
   \<and> trackProgress env0 scenario_store ''V'' ''nowhere'' True = (scenario_store, Inl TypeError)"
proof -
  have a: "purchases scenario_store = []" by (simp add: scenario_store_def)
  have b: "map (\<lambda>c. (ch_id c, ch_isFree c)) (chapters scenario_store)
      = [(''chapter1'', False), (''chapter2'', False), (''chapter3'', False)]"
    by (simp add: scenario_store_def mk_chapter_def)
  have c: "trackProgress env0 scenario_store ''V'' c True = (scenario_store, Inl TypeError)"
    for c
    using env0_undeclared by (rule trackProgress_undeclared)
  from a b c show ?thesis by blast
qed

subsection \<open>What the call leaves alone\<close>

lemma filter_others_touch:
  "filter (\<lambda>p. \<not> has_key u c p) (map (touch u c f t) ps) = filter (\<lambda>p. \<not> has_key u c p) ps"
  by (induction ps) (simp_all add: has_key_touch, simp_all add: touch_def)

text \<open>
  C8. \<open>trackProgress\<close> modifies only the progress row keyed by the given (user,
  chapter) pair: the courses, the chapters (with their positions and publication
  flags) and the purchases are unchanged, and so are, row for row and in order, the
  progress rows of every other pair.
\<close>

theorem trackProgress_frame:
  "courses (fst (trackProgress e db u c f)) = courses db
   \<and> chapters (fst (trackProgress e db u c f)) = chapters db
   \<and> purchases (fst (trackProgress e db u c f)) = purchases db
   \<and> filter (\<lambda>p. \<not> has_key u c p) (userProgress (fst (trackProgress e db u c f)))
       = filter (\<lambda>p. \<not> has_key u c p) (userProgress db)"
proof (cases rule: trackProgress_cases [of e db u c f])
  case undeclared
  then show ?thesis by simp
next
  case (found p)
  then show ?thesis by (simp add: filter_others_touch)
next
  case refused
  then show ?thesis by simp
next
  case created
  then show ?thesis by (simp add: fresh_row_def has_key_def)
qed

section \<open>The positions of a new course\<close>

lemma created_rows:
  fixes f :: "nat \<times> ChapterData \<Rightarrow> Chapter"
  assumes "f = (\<lambda>(index, chapter).
             \<lparr>ch_id = g index, ch_title = cd_title chapter,
              ch_description = cd_description chapter, ch_videoUrl = None,
              ch_position = int index, ch_isPublished = False, ch_isFree = False,
              ch_courseId = cid, ch_createdAt = t, ch_updatedAt = t\<rparr>)"
  shows "map ch_position (map f (enumerate n xs)) = map int [n..<n + length xs]"
    and "map ch_title (map f (enumerate n xs)) = map cd_title xs"
    and "filter (\<lambda>c. ch_courseId c = cid) (map f (enumerate n xs)) = map f (enumerate n xs)"
proof -
  have "ch_position \<circ> f = int \<circ> fst"
    by (auto simp add: assms fun_eq_iff)
  then have "map ch_position (map f (enumerate n xs)) = map int (map fst (enumerate n xs))"
    by (simp only: map_map)
  then show "map ch_position (map f (enumerate n xs)) = map int [n..<n + length xs]"
    by (simp only: map_fst_enumerate)
  have "ch_title \<circ> f = cd_title \<circ> snd"
    by (auto simp add: assms fun_eq_iff)
  then have "map ch_title (map f (enumerate n xs)) = map cd_title (map snd (enumerate n xs))"
    by (simp only: map_map)
  then show "map ch_title (map f (enumerate n xs)) = map cd_title xs"
    by (simp only: map_snd_enumerate)
  have "\<forall>c \<in> set (map f (enumerate n xs)). ch_courseId c = cid"
    by (auto simp add: assms)
  then show "filter (\<lambda>c. ch_courseId c = cid) (map f (enumerate n xs)) = map f (enumerate n xs)"
    by (simp only: filter_True)
qed

text \<open>
  C9. \<open>createCourse\<close> gives each chapter its index in \<open>data.chapters\<close> as position:
  the chapters of the new course are, in input order, at positions \<open>0, 1, \<dots>, n - 1\<close>,
  which are pairwise distinct. The chapters of the new course are those that reference
  its identifier, which is freshly drawn: no chapter of the old store references it.
\<close>

theorem createCourse_positions:
  assumes "\<forall>c \<in> set (chapters db). ch_courseId c \<noteq> uuid e 0"
  shows "co_id (snd (createCourse e db userId data)) = uuid e 0
    \<and> map ch_position
        (filter (\<lambda>c. ch_courseId c = co_id (snd (createCourse e db userId data)))
           (chapters (fst (createCourse e db userId data))))
       = map int [0..<length (ccd_chapters data)]
    \<and> map ch_title
        (filter (\<lambda>c. ch_courseId c = co_id (snd (createCourse e db userId data)))
           (chapters (fst (createCourse e db userId data))))
       = map cd_title (ccd_chapters data)
    \<and> distinct (map ch_position
        (filter (\<lambda>c. ch_courseId c = co_id (snd (createCourse e db userId data)))
           (chapters (fst (createCourse e db userId data)))))"
proof -
  define f :: "nat \<times> ChapterData \<Rightarrow> Chapter" where
    "f = (\<lambda>(index, chapter).
             \<lparr>ch_id = uuid e (Suc index), ch_title = cd_title chapter,
              ch_description = cd_description chapter, ch_videoUrl = None,
              ch_position = int index, ch_isPublished = False, ch_isFree = False,
              ch_courseId = uuid e 0, ch_createdAt = now e, ch_updatedAt = now e\<rparr>)"
  let ?new = "map f (enumerate 0 (ccd_chapters data))"
  note rows = created_rows [OF f_def, of 0 "ccd_chapters data"]
  have course: "co_id (snd (createCourse e db userId data)) = uuid e 0"
    by (simp add: createCourse_def Let_def)
  have all: "chapters (fst (createCourse e db userId data)) = chapters db @ ?new"
    by (simp add: createCourse_def Let_def f_def)
  from assms have old: "filter (\<lambda>c. ch_courseId c = uuid e 0) (chapters db) = []"
    by (simp add: filter_empty_conv)
  have own: "filter (\<lambda>c. ch_courseId c = co_id (snd (createCourse e db userId data)))
           (chapters (fst (createCourse e db userId data))) = ?new"
    unfolding course all filter_append old rows(3) by simp
  have pos: "map ch_position ?new = map int [0..<length (ccd_chapters data)]"
    using rows(1) by simp
  have "distinct (map int [0..<length (ccd_chapters data)])"
    by (simp add: distinct_map)
  with course pos rows(2) show ?thesis unfolding own by simp
qed

text \<open>
  A course of two chapters created in a store that holds another course.
\<close>

theorem createCourse_positions_witness:
  "list_all (\<lambda>c. ch_courseId c \<noteq> uuid env0 0) (chapters geometry_store)
   \<and> map (\<lambda>c. (ch_courseId c, ch_title c, ch_position c))
       (chapters (fst (createCourse env0 geometry_store ''teacher'' algebra_course)))
     = [(''geometry'', ''Triangles'', 0), (''id-'', ''Groups'', 0), (''id-'', ''Rings'', 1)]
   \<and> map ch_position
        (filter (\<lambda>c. ch_courseId c
                      = co_id (snd (createCourse env0 geometry_store ''teacher'' algebra_course)))
           (chapters (fst (createCourse env0 geometry_store ''teacher'' algebra_course))))
      = [0, 1]"
proof -
  have a: "list_all (\<lambda>c. ch_courseId c \<noteq> uuid env0 0) (chapters geometry_store)"
    by (simp add: geometry_store_def mk_chapter_def env0_def)
  then have "\<forall>c \<in> set (chapters geometry_store). ch_courseId c \<noteq> uuid env0 0"
    by (simp add: list_all_iff)
  from createCourse_positions [OF this, of "''teacher''" algebra_course]
  have "map ch_position
        (filter (\<lambda>c. ch_courseId c
                      = co_id (snd (createCourse env0 geometry_store ''teacher'' algebra_course)))
           (chapters (fst (createCourse env0 geometry_store ''teacher'' algebra_course))))
      = map int [0..<length (ccd_chapters algebra_course)]" by blast
  also have "\<dots> = [0, 1]" by (simp add: algebra_course_def upt_rec)
  finally have b: "map ch_position
        (filter (\<lambda>c. ch_courseId c
                      = co_id (snd (createCourse env0 geometry_store ''teacher'' algebra_course)))
           (chapters (fst (createCourse env0 geometry_store ''teacher'' algebra_course))))
      = [0, 1]" .
  have c: "map (\<lambda>c. (ch_courseId c, ch_title c, ch_position c))
       (chapters (fst (createCourse env0 geometry_store ''teacher'' algebra_course)))
     = [(''geometry'', ''Triangles'', 0), (''id-'', ''Groups'', 0), (''id-'', ''Rings'', 1)]"
    by (simp add: createCourse_def Let_def geometry_store_def algebra_course_def
          mk_chapter_def env0_def)
  from a b c show ?thesis by blast
qed

end
